theory Spec2Isabelle
  imports Complex_Main
begin

section \<open>Python strings\<close>

text \<open>
  A Python \<open>str\<close> is a sequence of Unicode code points, and \<open>len\<close>, slicing and
  \<open>startswith\<close> count code points. A string is therefore a list of code points; an
  ASCII literal of the source is written \<open>u ''...''\<close>. The bullet marker of the source
  is the single code point U+2022.
\<close>

type_synonym pystr = "nat list"

definition u :: "string \<Rightarrow> pystr" where
  "u s = map of_char s"

definition bullet :: nat where
  "bullet = 8226"

definition newline :: nat where
  "newline = 10"

text \<open>The characters \<open>str.strip()\<close> removes: those for which \<open>str.isspace\<close> holds.\<close>

definition isspace :: "nat \<Rightarrow> bool" where
  "isspace c \<longleftrightarrow>
     (9 \<le> c \<and> c \<le> 13) \<or> (28 \<le> c \<and> c \<le> 32) \<or> c = 133 \<or> c = 160 \<or> c = 5760 \<or>
     (8192 \<le> c \<and> c \<le> 8202) \<or> c = 8232 \<or> c = 8233 \<or> c = 8239 \<or> c = 8287 \<or> c = 12288"

definition lstrip :: "pystr \<Rightarrow> pystr" where
  "lstrip s = dropWhile isspace s"

definition rstrip :: "pystr \<Rightarrow> pystr" where
  "rstrip s = rev (dropWhile isspace (rev s))"

definition strip :: "pystr \<Rightarrow> pystr" where
  "strip s = rstrip (lstrip s)"

definition startswith :: "pystr \<Rightarrow> pystr \<Rightarrow> bool" where
  "startswith s p \<longleftrightarrow> take (length p) s = p"

text \<open>\<open>s.split("\n")\<close>: the pieces between newlines, empty pieces kept, never an empty list.\<close>

fun split_nl :: "pystr \<Rightarrow> pystr list" where
  "split_nl [] = [[]]"
| "split_nl (c # cs) =
     (if c = newline then [] # split_nl cs
      else (case split_nl cs of [] \<Rightarrow> [[c]] | l # ls \<Rightarrow> (c # l) # ls))"

text \<open>\<open>sep.join(xs)\<close>.\<close>

fun join :: "pystr \<Rightarrow> pystr list \<Rightarrow> pystr" where
  "join sep [] = []"
| "join sep [x] = x"
| "join sep (x # y # ys) = x @ sep @ join sep (y # ys)"

text \<open>\<open>s.replace(old, new)\<close> for patterns of one code point, as the source uses it.\<close>

definition replace_char :: "nat \<Rightarrow> nat \<Rightarrow> pystr \<Rightarrow> pystr" where
  "replace_char old new s = map (\<lambda>c. if c = old then new else c) s"

text \<open>\<open>range(start, stop, step)\<close> for a positive step, and the slice \<open>s[i:j]\<close>, which
  Python clamps to the end of the string.\<close>

definition py_range :: "nat \<Rightarrow> nat \<Rightarrow> nat \<Rightarrow> nat list" where
  "py_range start stop step = map (\<lambda>k. start + k * step) [0 ..< (stop - start + step - 1) div step]"

definition slice :: "'a list \<Rightarrow> nat \<Rightarrow> nat \<Rightarrow> 'a list" where
  "slice s i j = take (j - i) (drop i s)"

section \<open>Exceptions and observable effects\<close>

text \<open>
  Every exception the bot can meet is an \<open>Exception\<close> of Python: the ones the
  interpreter raises itself, and \<open>Raised msg\<close> for whatever a third-party client
  (tweepy, pytube, replicate, the file system) raises.
\<close>

datatype exn =
    KeyError pystr
  | ValueError pystr
  | AttributeError
  | TypeError
  | UnicodeEncodeError
  | Raised pystr

text \<open>What each \<open>print\<close> of the source says, with the values it interpolates.\<close>

datatype message =
    Bot_started
  | Bot_running_as pystr
  | Error_getting_bot_user_info exn
  | Processing_mention "pystr option"
  | Found_URL pystr
  | No_URL_found int
  | Error_processing_mention int exn
  | Error_in_main_loop exn
  | Error_getting_mentions exn
  | Error_getting_video_URL exn
  | Error_downloading_video exn
  | Error_transcribing_video exn
  | Error_creating_summary exn
  | Error_saving_transcript exn

text \<open>The requests the bot sends to the outside: the social API, the video library,
  the temporary directory, the inference API and the transcript directory.\<close>

datatype request =
    Get_me
  | Get_users_mentions int "int option"
  | Get_tweet int
  | YouTube_audio pystr
  | Mkdtemp
  | Stream_download pystr
  | Open_rb pystr
  | Run_whisper pystr
  | Run_llama pystr
  | Write_file pystr

datatype event = Print message | Sleep nat | Call request

section \<open>Summarizer: \<open>TLDRBot.create_summary\<close>\<close>

definition max_length :: nat where
  "max_length = 1024"

text \<open>\<open>[transcript[i:i+max_length] for i in range(0, len(transcript), max_length)]\<close>\<close>

definition chunks :: "pystr \<Rightarrow> pystr list" where
  "chunks transcript =
     map (\<lambda>i. slice transcript i (i + max_length)) (py_range 0 (length transcript) max_length)"

text \<open>The prompt of one chunk: the f-string of the source.\<close>

definition prompt :: "pystr \<Rightarrow> pystr" where
  "prompt chunk =
     u ''Please provide a concise bullet-point summary of the following text. Focus on the key points and main ideas:''
     @ [newline, newline] @ chunk @ [newline, newline]
     @ u ''Format the response as bullet points starting with '' @ [34, bullet, 34]
     @ u ''. Keep each bullet point brief and clear.''"

text \<open>The clean-up of one chunk's output:
  \<^verbatim>\<open>summary = output.strip()
if not summary.startswith(bullet): summary = bullet + " " + summary\<close>\<close>

definition clean_up :: "pystr \<Rightarrow> pystr" where
  "clean_up output =
     (let summary = strip output
      in if \<not> startswith summary [bullet] then [bullet, 32] @ summary else summary)"

text \<open>
  The hosted inference client. The language model is not a function of its prompt (it
  samples), so the \<open>k\<close>-th call of one summarization has its own answer. A call that
  raises, or whose output is not a string (\<open>output.strip()\<close> then raises), is \<open>Inl\<close>.
\<close>

record replicate_client =
  open_rb :: "pystr \<Rightarrow> exn + unit"
  run_whisper :: "pystr \<Rightarrow> exn + (pystr \<times> pystr) list"
  run_llama :: "nat \<Rightarrow> pystr \<Rightarrow> exn + pystr"

text \<open>The \<open>for chunk in chunks\<close> loop: the summaries so far, the index of the next
  call; it stops at the first call that raises.\<close>

fun summarize_chunks ::
  "replicate_client \<Rightarrow> nat \<Rightarrow> pystr list \<Rightarrow> pystr list \<Rightarrow> (exn + pystr list) \<times> event list" where
  "summarize_chunks rc k [] summaries = (Inr summaries, [])"
| "summarize_chunks rc k (chunk # rest) summaries =
     (case run_llama rc k (prompt chunk) of
        Inl e \<Rightarrow> (Inl e, [Call (Run_llama (prompt chunk))])
      | Inr output \<Rightarrow>
          (case summarize_chunks rc (Suc k) rest (summaries @ [clean_up output]) of
             (r, es) \<Rightarrow> (r, Call (Run_llama (prompt chunk)) # es)))"

definition create_summary :: "replicate_client \<Rightarrow> pystr \<Rightarrow> pystr option \<times> event list" where
  "create_summary rc transcript =
     (case summarize_chunks rc 0 (chunks transcript) [] of
        (Inr summaries, es) \<Rightarrow> (Some (join [newline] summaries), es)
      | (Inl e, es) \<Rightarrow> (None, es @ [Print (Error_creating_summary e)]))"

text \<open>The remote calls in a trace.\<close>

definition llama_calls :: "event list \<Rightarrow> pystr list" where
  "llama_calls es = concat (map (\<lambda>e. case e of Call (Run_llama p) \<Rightarrow> [p] | _ \<Rightarrow> []) es)"

section \<open>Social API: mentions and the cursor\<close>

text \<open>
  What the bot reads of a tweet: its identifier, its text, and the tweets it refers to
  (\<open>None\<close> when the API sends none). The text is optional because the per-mention code
  of the loop guards against a mention it cannot process.
\<close>

record reference =
  ref_type :: pystr
  ref_id :: int

record mention =
  tweet_id :: int
  tweet_text :: "pystr option"
  referenced_tweets :: "reference list option"

record user =
  user_id :: int
  username :: pystr

record media =
  media_type :: pystr
  media_url :: pystr

record tweet_response =
  tweet_includes :: "(pystr \<times> media list) list"

text \<open>
  The tweepy client, as the bot uses it: each request either raises or answers.
  \<open>get_users_mentions uid since_id\<close> answers with \<open>mentions.data\<close>, which is \<open>None\<close> or
  a list.
\<close>

record client =
  get_me :: "exn + user"
  get_users_mentions :: "int \<Rightarrow> int option \<Rightarrow> exn + mention list option"
  get_tweet :: "int \<Rightarrow> exn + tweet_response"

text \<open>The mutable state of \<open>TLDRBot\<close>: the cursor.\<close>

record bot =
  last_mention_id :: "int option"

text \<open>\<open>max(...)\<close> over a generator raises \<open>ValueError\<close> on an empty one.\<close>

fun py_max :: "int list \<Rightarrow> exn + int" where
  "py_max [] = Inl (ValueError (u ''max() arg is an empty sequence''))"
| "py_max (x # xs) = Inr (fold max xs x)"

text \<open>The reply filter of \<open>get_new_mentions\<close>: the attribute is there, is not empty,
  and some reference has type \<open>replied_to\<close>.\<close>

definition is_reply :: "mention \<Rightarrow> bool" where
  "is_reply m =
     (case referenced_tweets m of
        None \<Rightarrow> False
      | Some refs \<Rightarrow> refs \<noteq> [] \<and> list_ex (\<lambda>r. ref_type r = u ''replied_to'') refs)"

definition get_new_mentions :: "client \<Rightarrow> bot \<Rightarrow> (mention list \<times> bot) \<times> event list" where
  "get_new_mentions c b =
     (case get_me c of
        Inl e \<Rightarrow> (([], b), [Call Get_me, Print (Error_getting_mentions e)])
      | Inr me \<Rightarrow>
          (let asked = [Call Get_me, Call (Get_users_mentions (user_id me) (last_mention_id b))]
           in case get_users_mentions c (user_id me) (last_mention_id b) of
                Inl e \<Rightarrow> (([], b), asked @ [Print (Error_getting_mentions e)])
              | Inr None \<Rightarrow> (([], b), asked)
              | Inr (Some batch) \<Rightarrow>
                  if batch = [] then (([], b), asked)
                  else (case py_max (map tweet_id batch) of
                          Inl e \<Rightarrow> (([], b), asked @ [Print (Error_getting_mentions e)])
                        | Inr newest \<Rightarrow>
                            ((filter is_reply batch, b\<lparr>last_mention_id := Some newest\<rparr>), asked))))"

text \<open>Successive polls, each against the service as it is at that moment.\<close>

fun polls :: "client list \<Rightarrow> bot \<Rightarrow> mention list list \<times> bot" where
  "polls [] b = ([], b)"
| "polls (c # cs) b =
     (case get_new_mentions c b of
        ((ms, b'), es) \<Rightarrow> (case polls cs b' of (mss, b'') \<Rightarrow> (ms # mss, b'')))"

text \<open>A service honours \<open>since_id\<close> when it answers only with newer mentions.\<close>

definition honours_since_id :: "client \<Rightarrow> bool" where
  "honours_since_id c \<longleftrightarrow>
     (\<forall>uid cursor batch. get_users_mentions c uid (Some cursor) = Inr (Some batch)
        \<longrightarrow> (\<forall>m \<in> set batch. cursor < tweet_id m))"

text \<open>The raw batch of a poll: what the service answered, before the reply filter;
  empty when the request failed or answered with nothing.\<close>

definition raw_batch :: "client \<Rightarrow> bot \<Rightarrow> mention list" where
  "raw_batch c b =
     (case get_me c of
        Inl e \<Rightarrow> []
      | Inr me \<Rightarrow>
          (case get_users_mentions c (user_id me) (last_mention_id b) of
             Inl e \<Rightarrow> []
           | Inr None \<Rightarrow> []
           | Inr (Some batch) \<Rightarrow> batch))"

definition get_video_url :: "client \<Rightarrow> int \<Rightarrow> pystr option \<times> event list" where
  "get_video_url c tid =
     (case get_tweet c tid of
        Inl e \<Rightarrow> (None, [Call (Get_tweet tid), Print (Error_getting_video_URL e)])
      | Inr tweet \<Rightarrow>
          if tweet_includes tweet \<noteq> [] \<and> map_of (tweet_includes tweet) (u ''media'') \<noteq> None
          then (None, [Call (Get_tweet tid)])
          else (None, [Call (Get_tweet tid)]))"

section \<open>The bot loop: \<open>TLDRBot.run\<close>\<close>

text \<open>
  The pattern of \<open>re.findall\<close> is \<open>http[s]?://\<close> followed by one or more of: a letter,
  a digit, a character of \<open>[$-_@.&+]\<close> (the range from \<open>$\<close> to \<open>_\<close> and four more), one of
  \<open>[!*(),]\<close>, or a percent escape. The percent sign and the hexadecimal digits are in
  the earlier alternatives, so the greedy repetition takes the longest run of such
  characters, and nothing follows it in the pattern.
\<close>

definition is_url_char :: "nat \<Rightarrow> bool" where
  "is_url_char c \<longleftrightarrow>
     (97 \<le> c \<and> c \<le> 122) \<or> (65 \<le> c \<and> c \<le> 90) \<or> (48 \<le> c \<and> c \<le> 57) \<or>
     (36 \<le> c \<and> c \<le> 95) \<or> c = 64 \<or> c = 46 \<or> c = 38 \<or> c = 43 \<or>
     c = 33 \<or> c = 42 \<or> c = 40 \<or> c = 41 \<or> c = 44"

definition match_url :: "pystr \<Rightarrow> pystr option" where
  "match_url s =
     (let n = (if startswith s (u ''https://'') then 8
               else if startswith s (u ''http://'') then 7 else 0);
          run = takeWhile is_url_char (drop n s)
      in if n = 0 \<or> run = [] then None else Some (take n s @ run))"

function findall_urls :: "pystr \<Rightarrow> pystr list" where
  "findall_urls [] = []"
| "findall_urls (c # cs) =
     (case match_url (c # cs) of
        None \<Rightarrow> findall_urls cs
      | Some m \<Rightarrow> m # findall_urls (drop (length m) (c # cs)))"
  by pat_completeness auto
termination
  by (relation "measure length") (auto simp: match_url_def Let_def split: if_splits)

text \<open>
  The body of the inner \<open>try\<close>, for one mention: what it prints, and the exception that
  ends it, if any (\<open>re.findall\<close> raises \<open>TypeError\<close> on a text that is not a string).
  The place the source leaves for the video processing holds a comment only.
\<close>

definition mention_body :: "mention \<Rightarrow> event list \<times> exn option" where
  "mention_body m =
     (case tweet_text m of
        None \<Rightarrow> ([Print (Processing_mention None)], Some TypeError)
      | Some t \<Rightarrow>
          (case findall_urls t of
             [] \<Rightarrow> ([Print (Processing_mention (Some t)), Print (No_URL_found (tweet_id m))], None)
           | video_url # _ \<Rightarrow>
               ([Print (Processing_mention (Some t)), Print (Found_URL video_url)], None)))"

text \<open>The inner \<open>try ... except Exception ... continue\<close>.\<close>

definition process_mention :: "mention \<Rightarrow> event list" where
  "process_mention m =
     (case mention_body m of
        (es, None) \<Rightarrow> es
      | (es, Some e) \<Rightarrow> es @ [Print (Error_processing_mention (tweet_id m) e)])"

text \<open>
  One pass of \<open>while True\<close>. Nothing in the outer \<open>try\<close> raises: \<open>get_new_mentions\<close>
  catches its own failures and each mention is handled by the inner \<open>try\<close>; so the
  pass ends with the \<open>time.sleep(60)\<close> of the \<open>try\<close> block.
\<close>

definition loop_pass :: "client \<Rightarrow> bot \<Rightarrow> event list \<times> bot" where
  "loop_pass c b =
     (case get_new_mentions c b of
        ((mentions, b'), es) \<Rightarrow> (es @ concat (map process_mention mentions) @ [Sleep 60], b'))"

text \<open>The first \<open>n\<close> passes of the loop; pass \<open>k\<close> meets the service \<open>service k\<close>.\<close>

fun passes :: "nat \<Rightarrow> (nat \<Rightarrow> client) \<Rightarrow> nat \<Rightarrow> bot \<Rightarrow> event list \<times> bot" where
  "passes 0 service k b = ([], b)"
| "passes (Suc n) service k b =
     (case loop_pass (service k) b of
        (es, b') \<Rightarrow> (case passes n service (Suc k) b' of (es', b'') \<Rightarrow> (es @ es', b'')))"

text \<open>The loop itself: it has no \<open>break\<close> and no \<open>return\<close>; its value, were it to
  leave, would be the bot it leaves with.\<close>

partial_function (option) while_true :: "(nat \<Rightarrow> client) \<Rightarrow> nat \<Rightarrow> bot \<Rightarrow> bot option" where
  "while_true service k b = while_true service (Suc k) (snd (loop_pass (service k) b))"

text \<open>\<open>run\<close> up to the loop: it returns at once when the bot cannot identify itself.\<close>

datatype run_status = Returned | Looping

definition run :: "nat \<Rightarrow> client \<Rightarrow> (nat \<Rightarrow> client) \<Rightarrow> bot \<Rightarrow> run_status \<times> event list \<times> bot" where
  "run n c0 service b =
     (case get_me c0 of
        Inl e \<Rightarrow> (Returned, [Print Bot_started, Call Get_me, Print (Error_getting_bot_user_info e)], b)
      | Inr me \<Rightarrow>
          (case passes n service 0 b of
             (es, b') \<Rightarrow>
               (Looping, [Print Bot_started, Call Get_me, Print (Bot_running_as (username me))] @ es, b')))"

text \<open>Kinds of events in a trace: the sleeps, the polls (each poll starts by asking
  who the bot is), and the requests of the pipeline, which are all requests but the
  three of the social API.\<close>

definition is_sleep :: "event \<Rightarrow> bool" where
  "is_sleep e = (case e of Sleep s \<Rightarrow> True | _ \<Rightarrow> False)"

definition is_poll :: "event \<Rightarrow> bool" where
  "is_poll e = (case e of Call Get_me \<Rightarrow> True | _ \<Rightarrow> False)"

definition pipeline_request :: "request \<Rightarrow> bool" where
  "pipeline_request r =
     (case r of
        Get_me \<Rightarrow> False
      | Get_users_mentions uid since_id \<Rightarrow> False
      | Get_tweet tid \<Rightarrow> False
      | _ \<Rightarrow> True)"

definition is_pipeline_call :: "event \<Rightarrow> bool" where
  "is_pipeline_call e = (case e of Call r \<Rightarrow> pipeline_request r | _ \<Rightarrow> False)"

section \<open>MediaFetcher and Transcriber\<close>

text \<open>pytube and the temporary directory. \<open>YouTube url\<close> stands for
  \<open>YouTube(url).streams.filter(only_audio=True).first()\<close>: it raises, or gives the first
  audio stream, or \<open>None\<close> when there is none.\<close>

record audio_stream =
  download :: "pystr \<Rightarrow> exn + unit"

record media_library =
  YouTube :: "pystr \<Rightarrow> exn + audio_stream option"
  mkdtemp :: "exn + pystr"

text \<open>\<open>os.path.join\<close> of two components.\<close>

definition path_join :: "pystr \<Rightarrow> pystr \<Rightarrow> pystr" where
  "path_join a b =
     (if startswith b [47] \<and> b \<noteq> [] then b
      else if a = [] \<or> last a = 47 then a @ b
      else a @ [47] @ b)"

definition download_video_audio :: "media_library \<Rightarrow> pystr \<Rightarrow> pystr option \<times> event list" where
  "download_video_audio lib video_url =
     (case YouTube lib video_url of
        Inl e \<Rightarrow> (None, [Call (YouTube_audio video_url), Print (Error_downloading_video e)])
      | Inr stream \<Rightarrow>
          (case mkdtemp lib of
             Inl e \<Rightarrow>
               (None, [Call (YouTube_audio video_url), Call Mkdtemp, Print (Error_downloading_video e)])
           | Inr temp_dir \<Rightarrow>
               (let temp_path = path_join temp_dir (u ''temp_audio.mp3'')
                in case stream of
                     None \<Rightarrow>
                       (None, [Call (YouTube_audio video_url), Call Mkdtemp,
                               Print (Error_downloading_video AttributeError)])
                   | Some audio \<Rightarrow>
                       (case download audio temp_path of
                          Inl e \<Rightarrow>
                            (None, [Call (YouTube_audio video_url), Call Mkdtemp,
                                    Call (Stream_download temp_path), Print (Error_downloading_video e)])
                        | Inr _ \<Rightarrow>
                            (Some temp_path, [Call (YouTube_audio video_url), Call Mkdtemp,
                                              Call (Stream_download temp_path)])))))"

definition transcribe_video :: "replicate_client \<Rightarrow> pystr \<Rightarrow> pystr option \<times> event list" where
  "transcribe_video rc audio_path =
     (case open_rb rc audio_path of
        Inl e \<Rightarrow> (None, [Call (Open_rb audio_path), Print (Error_transcribing_video e)])
      | Inr _ \<Rightarrow>
          (case run_whisper rc audio_path of
             Inl e \<Rightarrow>
               (None, [Call (Open_rb audio_path), Call (Run_whisper audio_path),
                       Print (Error_transcribing_video e)])
           | Inr output \<Rightarrow>
               (case map_of output (u ''text'') of
                  None \<Rightarrow>
                    (None, [Call (Open_rb audio_path), Call (Run_whisper audio_path),
                            Print (Error_transcribing_video (KeyError (u ''text'')))])
                | Some t \<Rightarrow> (Some t, [Call (Open_rb audio_path), Call (Run_whisper audio_path)]))))"

section \<open>\<open>str.format\<close>\<close>

text \<open>
  \<open>HTML_TEMPLATE.format(title=..., ...)\<close> is Python's format-string interpreter, called
  with keyword arguments only, all of them strings. It copies literal text, reads
  \<open>{{\<close> and \<open>}}\<close> as one brace, and reads \<open>{name!conversion:spec}\<close> as a replacement
  field. What follows is that interpreter, as CPython's \<open>MarkupIterator_next\<close>,
  \<open>parse_field\<close> and \<open>get_field_object\<close> have it.
\<close>

abbreviation lbrace :: nat where "lbrace \<equiv> 123"
abbreviation rbrace :: nat where "rbrace \<equiv> 125"
abbreviation lbracket :: nat where "lbracket \<equiv> 91"
abbreviation rbracket :: nat where "rbracket \<equiv> 93"
abbreviation colon :: nat where "colon \<equiv> 58"
abbreviation bang :: nat where "bang \<equiv> 33"
abbreviation dot :: nat where "dot \<equiv> 46"

text \<open>The field name runs to the first \<open>}\<close>, \<open>:\<close> or \<open>!\<close>; between \<open>[\<close> and \<open>]\<close> nothing is
  looked at. The result is the name, the character that ended it and the rest.\<close>

fun scan_field_name :: "bool \<Rightarrow> pystr \<Rightarrow> pystr \<Rightarrow> exn + (pystr \<times> nat \<times> pystr)" where
  "scan_field_name inside name [] = Inl (ValueError (u ''expected '}' before end of string''))"
| "scan_field_name inside name (c # cs) =
     (if inside then scan_field_name (c \<noteq> rbracket) (name @ [c]) cs
      else if c = lbrace then Inl (ValueError (u ''unexpected '{' in field name''))
      else if c = lbracket then scan_field_name True (name @ [c]) cs
      else if c = rbrace \<or> c = colon \<or> c = bang then Inr (name, c, cs)
      else scan_field_name False (name @ [c]) cs)"

text \<open>The format spec runs to the brace that closes the field; braces nest.\<close>

fun scan_format_spec :: "nat \<Rightarrow> pystr \<Rightarrow> pystr \<Rightarrow> exn + (pystr \<times> pystr)" where
  "scan_format_spec count spec [] = Inl (ValueError (u ''unmatched '{' in format spec''))"
| "scan_format_spec count spec (c # cs) =
     (if c = lbrace then scan_format_spec (Suc count) (spec @ [c]) cs
      else if c = rbrace then
        (if count = 1 then Inr (spec, cs) else scan_format_spec (count - 1) (spec @ [c]) cs)
      else scan_format_spec count (spec @ [c]) cs)"


text \<open>\<open>parse_field\<close>: the name, then an optional \<open>!c\<close> conversion, then an optional
  \<open>:spec\<close>. The result is the field (name, conversion, spec) and what follows it.\<close>

definition parse_field :: "pystr \<Rightarrow> exn + ((pystr \<times> nat option \<times> pystr) \<times> pystr)" where
  "parse_field s =
     (case scan_field_name False [] s of
        Inl e \<Rightarrow> Inl e
      | Inr (name, c, rest) \<Rightarrow>
          if c = rbrace then Inr ((name, None, []), rest)
          else if c = colon then
            (case scan_format_spec 1 [] rest of
               Inl e \<Rightarrow> Inl e
             | Inr (spec, rest') \<Rightarrow> Inr ((name, None, spec), rest'))
          else
            (case rest of
               [] \<Rightarrow> Inl (ValueError (u ''end of string while looking for conversion specifier''))
             | [conv] \<Rightarrow> Inl (ValueError (u ''unmatched '{' in format spec''))
             | conv # d # rest' \<Rightarrow>
                 if d = rbrace then Inr ((name, Some conv, []), rest')
                 else if d \<noteq> colon then
                   Inl (ValueError (u ''expected ':' after conversion specifier''))
                 else
                   (case scan_format_spec 1 [] rest' of
                      Inl e \<Rightarrow> Inl e
                    | Inr (spec, rest'') \<Rightarrow> Inr ((name, Some conv, spec), rest''))))"

text \<open>
  \<open>get_field_object\<close> and the rendering of one field. The first part of the name (up to
  a \<open>.\<close> or \<open>[\<close>) is looked up among the keyword arguments, and a name that is not
  there raises \<open>KeyError\<close> before the conversion and the spec are looked at. A found
  string with no accessor, conversion or spec is copied. Everything else (positional
  fields, accessors, conversions and specs applied to a found value) is left to the
  parameter \<open>other\<close>: the template's good fields use none of them.

  A field is positional when the first part of its name is empty or is made of decimal
  digits only. The decimal digits of Unicode are the ASCII digits and, from code point
  128 on, the characters of category Nd, which are not listed here: a name made only of
  ASCII digits and of code points from 128 on is taken as possibly positional and left
  to \<open>other\<close> as well. A name with an ASCII character that is not a digit is certainly a
  keyword.
\<close>

type_synonym other_fields = "pystr \<Rightarrow> nat option \<Rightarrow> pystr \<Rightarrow> exn + pystr"

definition is_digit :: "nat \<Rightarrow> bool" where
  "is_digit c \<longleftrightarrow> 48 \<le> c \<and> c \<le> 57"

definition may_be_decimal :: "nat \<Rightarrow> bool" where
  "may_be_decimal c \<longleftrightarrow> is_digit c \<or> 128 \<le> c"

definition render_field ::
  "(pystr \<Rightarrow> pystr option) \<Rightarrow> other_fields \<Rightarrow> pystr \<Rightarrow> nat option \<Rightarrow> pystr \<Rightarrow> exn + pystr" where
  "render_field kwargs other name conv spec =
     (let first = takeWhile (\<lambda>c. c \<noteq> dot \<and> c \<noteq> lbracket) name;
          rest = dropWhile (\<lambda>c. c \<noteq> dot \<and> c \<noteq> lbracket) name
      in if first = [] \<or> list_all may_be_decimal first then other name conv spec
         else (case kwargs first of
                 None \<Rightarrow> Inl (KeyError first)
               | Some obj \<Rightarrow>
                   if rest = [] \<and> conv = None \<and> spec = [] then Inr obj
                   else other name conv spec))"

lemma dropWhile_shorter: "dropWhile P s = x # xs \<Longrightarrow> length xs < length s"
proof -
  assume "dropWhile P s = x # xs"
  moreover have "length (dropWhile P s) \<le> length s"
    by (rule length_dropWhile_le)
  ultimately show ?thesis by simp
qed

lemma scan_field_name_shorter:
  "scan_field_name inside name s = Inr (name', c, rest) \<Longrightarrow> length rest < length s"
  by (induction inside name s rule: scan_field_name.induct) (auto split: if_splits)

lemma scan_format_spec_shorter:
  "scan_format_spec count spec s = Inr (spec', rest) \<Longrightarrow> length rest < length s"
  by (induction count spec s rule: scan_format_spec.induct) (auto split: if_splits)

lemma parse_field_shorter:
  "parse_field s = Inr (f, rest) \<Longrightarrow> length rest < length s"
  by (auto simp: parse_field_def split: sum.splits if_splits list.splits prod.splits
      dest!: scan_field_name_shorter scan_format_spec_shorter)

text \<open>
  \<open>build_string\<close>: literal text up to the first brace; a doubled brace is one brace of
  literal text; a single \<open>}\<close>, and a \<open>{\<close> at the very end, are errors; any other \<open>{\<close>
  opens a replacement field. The first error ends the formatting.
\<close>

function build_string :: "(pystr \<Rightarrow> pystr option) \<Rightarrow> other_fields \<Rightarrow> pystr \<Rightarrow> exn + pystr" where
  "build_string kwargs other s =
     (let literal = takeWhile (\<lambda>c. c \<noteq> lbrace \<and> c \<noteq> rbrace) s
      in case dropWhile (\<lambda>c. c \<noteq> lbrace \<and> c \<noteq> rbrace) s of
           [] \<Rightarrow> Inr literal
         | [c] \<Rightarrow>
             if c = rbrace then Inl (ValueError (u ''Single '}' encountered in format string''))
             else Inl (ValueError (u ''Single '{' encountered in format string''))
         | c # d # rest \<Rightarrow>
             if c = d then
               (case build_string kwargs other rest of
                  Inl e \<Rightarrow> Inl e
                | Inr out \<Rightarrow> Inr (literal @ [c] @ out))
             else if c = rbrace then
               Inl (ValueError (u ''Single '}' encountered in format string''))
             else
               (case parse_field (d # rest) of
                  Inl e \<Rightarrow> Inl e
                | Inr ((name, conv, spec), rest') \<Rightarrow>
                    (case render_field kwargs other name conv spec of
                       Inl e \<Rightarrow> Inl e
                     | Inr v \<Rightarrow>
                         (case build_string kwargs other rest' of
                            Inl e \<Rightarrow> Inl e
                          | Inr out \<Rightarrow> Inr (literal @ v @ out)))))"
  by pat_completeness auto
termination
proof (relation "measure (\<lambda>(kwargs, other, s). length s)")
qed (auto dest!: parse_field_shorter dropWhile_shorter)

declare build_string.simps [simp del]

text \<open>\<open>template.format(**kwargs)\<close>.\<close>

definition py_format :: "other_fields \<Rightarrow> pystr \<Rightarrow> (pystr \<times> pystr) list \<Rightarrow> exn + pystr" where
  "py_format other template kwargs = build_string (map_of kwargs) other template"

section \<open>\<open>TranscriptFormatter\<close>\<close>

text \<open>\<open>HTML_TEMPLATE\<close>, line by line as the source has it between its triple quotes:
  it starts with a newline and ends with the indentation of the closing quotes. The
  lines are kept in two lists: up to the end of the first style rule, and the rest.\<close>

definition TEMPLATE_head :: "pystr list" where
  "TEMPLATE_head =
     [[],
      u ''    <!DOCTYPE html>'',
      u ''    <html lang='' @ [34] @ u ''en'' @ [34] @ u ''>'',
      u ''    <head>'',
      u ''        <meta charset='' @ [34] @ u ''UTF-8'' @ [34] @ u ''>'',
      u ''        <meta name='' @ [34] @ u ''viewport'' @ [34] @ u '' content='' @ [34] @ u ''width=device-width, initial-scale=1.0'' @ [34] @ u ''>'',
      u ''        <title>{title}</title>'',
      u ''        <style>'',
      u ''            body {'',
      u ''                font-family: -apple-system, BlinkMacSystemFont, 'Segoe UI', Roboto, 'Helvetica Neue', Arial, sans-serif;'',
      u ''                line-height: 1.6;'',
      u ''                max-width: 800px;'',
      u ''                margin: 0 auto;'',
      u ''                padding: 2rem;'',
      u ''                background: #f5f5f5;'',
      u ''            }'']"

definition TEMPLATE_rest :: "pystr list" where
  "TEMPLATE_rest =
     [u ''            .container {'',
      u ''                background: white;'',
      u ''                padding: 2rem;'',
      u ''                border-radius: 8px;'',
      u ''                box-shadow: 0 2px 4px rgba(0, 0, 0, 0.1);'',
      u ''            }'',
      u ''            .metadata {'',
      u ''                color: #666;'',
      u ''                font-size: 0.9rem;'',
      u ''                margin-bottom: 2rem;'',
      u ''                padding-bottom: 1rem;'',
      u ''                border-bottom: 1px solid #eee;'',
      u ''            }'',
      u ''            .content {'',
      u ''                font-size: 1.1rem;'',
      u ''            }'',
      u ''            h1 {'',
      u ''                color: #2c3e50;'',
      u ''                margin-top: 0;'',
      u ''            }'',
      u ''            .summary {'',
      u ''                background: #f8f9fa;'',
      u ''                padding: 1.5rem;'',
      u ''                border-left: 4px solid #4a9eff;'',
      u ''                margin: 1.5rem 0;'',
      u ''            }'',
      u ''            .transcript {'',
      u ''                margin-top: 2rem;'',
      u ''            }'',
      u ''            .timestamp {'',
      u ''                color: #666;'',
      u ''                font-size: 0.9rem;'',
      u ''                margin-right: 0.5rem;'',
      u ''            }'',
      u ''        </style>'',
      u ''    </head>'',
      u ''    <body>'',
      u ''        <div class='' @ [34] @ u ''container'' @ [34] @ u ''>'',
      u ''            <h1>{title}</h1>'',
      u ''            <div class='' @ [34] @ u ''metadata'' @ [34] @ u ''>'',
      u ''                <div>Transcribed: {date}</div>'',
      u ''                <div>Original Tweet: <a href='' @ [34] @ u ''{tweet_url}'' @ [34] @ u ''>View on Twitter</a></div>'',
      u ''            </div>'',
      u ''            <div class='' @ [34] @ u ''content'' @ [34] @ u ''>'',
      u ''                <div class='' @ [34] @ u ''summary'' @ [34] @ u ''>'',
      u ''                    <h2>Summary</h2>'',
      u ''                    {summary}'',
      u ''                </div>'',
      u ''                <div class='' @ [34] @ u ''transcript'' @ [34] @ u ''>'',
      u ''                    <h2>Full Transcript</h2>'',
      u ''                    {content}'',
      u ''                </div>'',
      u ''            </div>'',
      u ''        </div>'',
      u ''    </body>'',
      u ''    </html>'',
      u ''    '']"

definition HTML_TEMPLATE :: pystr where
  "HTML_TEMPLATE = join [newline] (TEMPLATE_head @ TEMPLATE_rest)"

text \<open>
  What the formatter takes from outside: the markdown converter, the MD5 digest (in
  hexadecimal) of a string's UTF-8 encoding, the date as \<open>strftime\<close> prints it, the
  file system's answer to opening a path for writing and writing it, the environment
  variables, and the part of \<open>str.format\<close> that is not modelled.
\<close>

record formatter_env =
  markdown :: "pystr \<Rightarrow> pystr"
  md5_hexdigest :: "pystr \<Rightarrow> pystr"
  now_strftime :: pystr
  open_w :: "pystr \<Rightarrow> exn + unit"
  environ :: "pystr \<Rightarrow> pystr option"
  format_other :: other_fields

type_synonym filesystem = "pystr \<Rightarrow> pystr option"

text \<open>\<open>str.encode()\<close> raises on a lone surrogate.\<close>

definition encodable :: "pystr \<Rightarrow> bool" where
  "encodable s = list_all (\<lambda>c. c < 55296 \<or> 57343 < c) s"

text \<open>\<open>"\n\n".join(line.strip() for line in transcript.split("\n") if line.strip())\<close>\<close>

definition markdown_content :: "pystr \<Rightarrow> pystr" where
  "markdown_content transcript =
     join [newline, newline]
       (map strip (filter (\<lambda>line. strip line \<noteq> []) (split_nl transcript)))"

text \<open>\<open>html_content = markdown.markdown(markdown_content)\<close>: the HTML of the transcript
  is what the converter makes of that text.\<close>

definition transcript_html :: "formatter_env \<Rightarrow> pystr \<Rightarrow> pystr" where
  "transcript_html env transcript = markdown env (markdown_content transcript)"

text \<open>
  \<open>format_transcript\<close> reads the template from \<open>self.HTML_TEMPLATE\<close>; \<open>format_with\<close>
  is its body for a given template.
\<close>

definition format_with ::
  "pystr \<Rightarrow> formatter_env \<Rightarrow> pystr \<Rightarrow> pystr \<Rightarrow> pystr \<Rightarrow> pystr \<Rightarrow> filesystem
     \<Rightarrow> (exn + pystr) \<times> filesystem \<times> event list" where
  "format_with template env transcript_dir transcript summary tweet_url fs =
     (let summary_content = replace_char bullet 42 summary;
          html_content = transcript_html env transcript;
          html_summary = markdown env summary_content
      in if \<not> encodable transcript then (Inl UnicodeEncodeError, fs, [])
         else
           (let transcript_id = take 10 (md5_hexdigest env transcript)
            in case py_format (format_other env) template
                      [(u ''title'', u ''Video Transcript''),
                       (u ''date'', now_strftime env),
                       (u ''tweet_url'', tweet_url),
                       (u ''summary'', html_summary),
                       (u ''content'', html_content)] of
                 Inl e \<Rightarrow> (Inl e, fs, [])
               | Inr html \<Rightarrow>
                   (let filename = u ''transcript_'' @ transcript_id @ u ''.html'';
                        filepath = path_join transcript_dir filename
                    in case open_w env filepath of
                         Inl e \<Rightarrow> (Inl e, fs, [Call (Write_file filepath)])
                       | Inr _ \<Rightarrow>
                           (Inr filename, fs(filepath \<mapsto> html), [Call (Write_file filepath)]))))"

definition format_transcript ::
  "formatter_env \<Rightarrow> pystr \<Rightarrow> pystr \<Rightarrow> pystr \<Rightarrow> pystr \<Rightarrow> filesystem
     \<Rightarrow> (exn + pystr) \<times> filesystem \<times> event list" where
  "format_transcript env transcript_dir transcript summary tweet_url fs =
     format_with HTML_TEMPLATE env transcript_dir transcript summary tweet_url fs"

definition save_transcript ::
  "formatter_env \<Rightarrow> pystr \<Rightarrow> pystr \<Rightarrow> pystr \<Rightarrow> pystr \<Rightarrow> filesystem
     \<Rightarrow> pystr option \<times> filesystem \<times> event list" where
  "save_transcript env transcript_dir transcript summary tweet_url fs =
     (case format_transcript env transcript_dir transcript summary tweet_url fs of
        (Inl e, fs', es) \<Rightarrow> (None, fs', es @ [Print (Error_saving_transcript e)])
      | (Inr filename, fs', es) \<Rightarrow>
          (let base_url = (case environ env (u ''BASE_URL'') of
                             None \<Rightarrow> u ''http://localhost:5000''
                           | Some v \<Rightarrow> v)
           in (Some (base_url @ u ''/transcript/'' @ filename), fs', es)))"

text \<open>
  The blocks of a text, in the words of the specification: each maximal run of
  consecutive non-blank lines is one block, and blank lines separate the blocks. This
  is about the text alone. What the markdown converter makes of a block (a paragraph,
  a heading, a list item) is the converter's own matter and is not modelled: the
  converter is the parameter \<open>markdown\<close> of the environment.
\<close>

function line_runs :: "pystr list \<Rightarrow> pystr list list" where
  "line_runs [] = []"
| "line_runs (l # ls) =
     (if strip l = [] then line_runs ls
      else (l # takeWhile (\<lambda>x. strip x \<noteq> []) ls) # line_runs (dropWhile (\<lambda>x. strip x \<noteq> []) ls))"
  by pat_completeness auto
termination
  by (relation "measure length") (auto simp: length_dropWhile_le less_Suc_eq_le)

definition blocks :: "pystr \<Rightarrow> pystr list list" where
  "blocks t = line_runs (split_nl t)"

section \<open>Example data\<close>

text \<open>Mentions and services for the concrete cases below: a reply, a mention that
  refers to nothing, a quote; a service that answers every request, and the filter of
  a service that honours \<open>since_id\<close>.\<close>

definition reply_to :: "int \<Rightarrow> pystr \<Rightarrow> mention" where
  "reply_to i t =
     \<lparr>tweet_id = i, tweet_text = Some t,
      referenced_tweets = Some [\<lparr>ref_type = u ''replied_to'', ref_id = 1\<rparr>]\<rparr>"

definition plain_mention :: "int \<Rightarrow> pystr \<Rightarrow> mention" where
  "plain_mention i t = \<lparr>tweet_id = i, tweet_text = Some t, referenced_tweets = None\<rparr>"

definition quote_of :: "int \<Rightarrow> pystr \<Rightarrow> mention" where
  "quote_of i t =
     \<lparr>tweet_id = i, tweet_text = Some t,
      referenced_tweets = Some [\<lparr>ref_type = u ''quoted'', ref_id = 1\<rparr>]\<rparr>"

definition service_with :: "(int option \<Rightarrow> mention list) \<Rightarrow> client" where
  "service_with answer =
     \<lparr>get_me = Inr \<lparr>user_id = 1, username = u ''tldr''\<rparr>,
      get_users_mentions = (\<lambda>uid since_id. Inr (Some (answer since_id))),
      get_tweet = (\<lambda>tid. Inr \<lparr>tweet_includes = []\<rparr>)\<rparr>"

definition newer_than :: "int option \<Rightarrow> mention list \<Rightarrow> mention list" where
  "newer_than since_id ms =
     filter (\<lambda>m. case since_id of None \<Rightarrow> True | Some i \<Rightarrow> i < tweet_id m) ms"

definition failing_service :: "exn \<Rightarrow> client" where
  "failing_service e =
     \<lparr>get_me = Inl e,
      get_users_mentions = (\<lambda>uid since_id. Inl e),
      get_tweet = (\<lambda>tid. Inl e)\<rparr>"

definition rate_limited_service :: "exn \<Rightarrow> client" where
  "rate_limited_service e =
     \<lparr>get_me = Inr \<lparr>user_id = 1, username = u ''tldr''\<rparr>,
      get_users_mentions = (\<lambda>uid since_id. Inl e),
      get_tweet = (\<lambda>tid. Inl e)\<rparr>"

definition textless_reply :: "int \<Rightarrow> mention" where
  "textless_reply i =
     \<lparr>tweet_id = i, tweet_text = None,
      referenced_tweets = Some [\<lparr>ref_type = u ''replied_to'', ref_id = 1\<rparr>]\<rparr>"

definition example_text :: pystr where
  "example_text = u ''@bot transcribe https://video.example/watch?v=abc please''"

definition example_url :: pystr where
  "example_url = u ''https://video.example/watch?v=abc''"

section \<open>Properties of the Summarizer\<close>

lemma ceiling_div_1024: "nat \<lceil>real L / 1024\<rceil> = (L + 1023) div 1024"
proof -
  have "\<lceil>real L / 1024\<rceil> = - (- int L div 1024)"
    using ceiling_divide_eq_div [of "int L" 1024, where ?'a = real] by simp
  also have "\<dots> = int ((L + 1023) div 1024)"
    by (simp add: zdiv_int)
  finally show ?thesis by simp
qed

lemma length_chunks: "length (chunks t) = (length t + 1023) div 1024"
  by (simp add: chunks_def py_range_def max_length_def)

lemma concat_slices:
  "concat (map (\<lambda>i. slice t i (i + n)) (map (\<lambda>k. k * n) [0 ..< m])) = take (m * n) t"
proof (induction m)
  case 0
  show ?case by simp
next
  case (Suc m)
  have "take (m * n) t @ take n (drop (m * n) t) = take (m * n + n) t"
    by (simp add: take_add)
  with Suc show ?case by (simp add: slice_def add.commute)
qed

lemma concat_chunks: "concat (chunks t) = t"
proof -
  have "(length t + 1023) div 1024 * 1024 + (length t + 1023) mod 1024 = length t + 1023"
    by (rule div_mult_mod_eq)
  moreover have "(length t + 1023) mod 1024 < 1024"
    by simp
  ultimately have "length t \<le> ((length t + 1023) div 1024) * 1024"
    by linarith
  then show ?thesis
    using concat_slices [of t 1024 "(length t + 1023) div 1024"]
    by (simp add: chunks_def py_range_def max_length_def add.commute)
qed

lemma chunks_nth:
  "i < length (chunks t) \<Longrightarrow> chunks t ! i = take 1024 (drop (i * 1024) t)"
  by (simp add: chunks_def py_range_def max_length_def slice_def)

text \<open>When no call raises, the loop asks once per chunk, in order, and keeps the
  cleaned-up answers in that order.\<close>

lemma summarize_chunks_ok:
  "\<forall>i < length cs. \<exists>out. run_llama rc (k + i) (prompt (cs ! i)) = Inr out \<Longrightarrow>
   summarize_chunks rc k cs acc =
     (Inr (acc @ map (\<lambda>i. clean_up (projr (run_llama rc (k + i) (prompt (cs ! i))))) [0 ..< length cs]),
      map (\<lambda>c. Call (Run_llama (prompt c))) cs)"
proof (induction cs arbitrary: k acc)
  case Nil
  show ?case by simp
next
  case (Cons c cs)
  from Cons.prems obtain out where out: "run_llama rc k (prompt c) = Inr out"
    by fastforce
  have "\<forall>i < length cs. \<exists>out. run_llama rc (Suc k + i) (prompt (cs ! i)) = Inr out"
    using Cons.prems by fastforce
  from Cons.IH [OF this] out show ?case
    by (simp add: upt_rec [of 0] map_upt_Suc del: upt_Suc flip: map_Suc_upt)
qed

lemma llama_calls_Cons:
  "llama_calls (e # es) = (case e of Call (Run_llama p) \<Rightarrow> [p] | _ \<Rightarrow> []) @ llama_calls es"
  by (simp add: llama_calls_def)

lemma llama_calls_map: "llama_calls (map (\<lambda>c. Call (Run_llama (prompt c))) cs) = map prompt cs"
  by (induction cs) (simp_all add: llama_calls_Cons, simp add: llama_calls_def)

text \<open>
  Claim C4. A transcript of length \<open>L\<close> is cut into \<open>ceil(L/1024)\<close> consecutive pieces of
  1024 characters (the last one shorter), which together are the transcript. When the
  remote calls answer, \<open>create_summary\<close> issues exactly one call per piece, in order,
  each with the prompt of its piece, so \<open>ceil(L/1024)\<close> calls; and the summary it
  returns is the cleaned-up answers, one per piece, in the order of the pieces, joined
  by newlines.
\<close>

theorem create_summary_one_call_per_chunk:
  assumes "\<forall>i < length (chunks t). \<exists>out. run_llama rc i (prompt (chunks t ! i)) = Inr out"
  shows "length (chunks t) = nat \<lceil>real (length t) / 1024\<rceil>
       \<and> concat (chunks t) = t
       \<and> (\<forall>i < length (chunks t). chunks t ! i = take 1024 (drop (i * 1024) t))
       \<and> llama_calls (snd (create_summary rc t)) = map prompt (chunks t)
       \<and> length (llama_calls (snd (create_summary rc t))) = nat \<lceil>real (length t) / 1024\<rceil>
       \<and> fst (create_summary rc t) =
           Some (join [newline]
                   (map (\<lambda>i. clean_up (projr (run_llama rc i (prompt (chunks t ! i)))))
                      [0 ..< length (chunks t)]))"
proof -
  have len: "length (chunks t) = nat \<lceil>real (length t) / 1024\<rceil>"
    by (simp add: length_chunks ceiling_div_1024)
  from assms have "\<forall>i < length (chunks t). \<exists>out. run_llama rc (0 + i) (prompt (chunks t ! i)) = Inr out"
    by simp
  from summarize_chunks_ok [OF this, of "[]"]
  have run: "summarize_chunks rc 0 (chunks t) [] =
     (Inr (map (\<lambda>i. clean_up (projr (run_llama rc i (prompt (chunks t ! i))))) [0 ..< length (chunks t)]),
      map (\<lambda>c. Call (Run_llama (prompt c))) (chunks t))"
    by simp
  have calls: "llama_calls (snd (create_summary rc t)) = map prompt (chunks t)"
    by (simp add: create_summary_def run llama_calls_map)
  have result: "fst (create_summary rc t) =
           Some (join [newline]
                   (map (\<lambda>i. clean_up (projr (run_llama rc i (prompt (chunks t ! i)))))
                      [0 ..< length (chunks t)]))"
    by (simp add: create_summary_def run)
  have "length (llama_calls (snd (create_summary rc t))) = nat \<lceil>real (length t) / 1024\<rceil>"
    using calls len by simp
  with len calls result show ?thesis
    by (simp add: concat_chunks chunks_nth)
qed

theorem create_summary_one_call_per_chunk_witness:
  "length (llama_calls (snd (create_summary
      \<lparr>open_rb = (\<lambda>p. Inr ()), run_whisper = (\<lambda>p. Inr []), run_llama = (\<lambda>k p. Inr (u ''x''))\<rparr>
      (replicate 2050 97)))) = 3
   \<and> fst (create_summary
      \<lparr>open_rb = (\<lambda>p. Inr ()), run_whisper = (\<lambda>p. Inr []), run_llama = (\<lambda>k p. Inr (u ''x''))\<rparr>
      (replicate 2050 97)) = Some ([bullet, 32, 120, 10, bullet, 32, 120, 10, bullet, 32, 120])"
  using create_summary_one_call_per_chunk
    [of "replicate 2050 97"
        "\<lparr>open_rb = (\<lambda>p. Inr ()), run_whisper = (\<lambda>p. Inr []), run_llama = (\<lambda>k p. Inr (u ''x''))\<rparr>"]
  by (simp add: length_chunks clean_up_def strip_def lstrip_def rstrip_def isspace_def startswith_def
      u_def bullet_def newline_def upt_rec [of _ 3] upt_rec [of _ 2] upt_rec [of _ 1])

lemma startswith_clean_up: "startswith (clean_up out) [bullet]"
  by (simp add: clean_up_def startswith_def Let_def)

lemma split_nl_nonempty: "split_nl s \<noteq> []"
  by (induction s) (auto split: list.splits)

lemma split_nl_Cons:
  "c \<noteq> newline \<Longrightarrow> split_nl (c # s) = (c # hd (split_nl s)) # tl (split_nl s)"
  using split_nl_nonempty [of s] by (cases "split_nl s") auto

lemma clean_up_eq:
  "clean_up out = (if startswith (strip out) [bullet] then strip out else [bullet, 32] @ strip out)"
  by (simp add: clean_up_def Let_def)

lemma tl_lines_clean_up: "tl (split_nl (clean_up out)) = tl (split_nl (strip out))"
  by (simp add: clean_up_eq split_nl_Cons bullet_def newline_def del: split_nl.simps)

text \<open>
  Claim C5, as the code has it. The clean-up looks at the chunk's output as a whole, not
  line by line: the output is stripped of surrounding whitespace; when the stripped
  output does not start with the bullet marker, a bullet and a space are put in front
  of it, and otherwise it is kept. So the cleaned-up output starts with the bullet
  marker, and every line after the first is the line the stripped output had, with a
  bullet or without.
\<close>

theorem clean_up_marks_whole_output:
  "startswith (clean_up out) [bullet]
   \<and> clean_up out = (if startswith (strip out) [bullet] then strip out else [bullet, 32] @ strip out)
   \<and> tl (split_nl (clean_up out)) = tl (split_nl (strip out))"
proof (intro conjI)
  show "startswith (clean_up out) [bullet]"
    by (rule startswith_clean_up)
  show "clean_up out = (if startswith (strip out) [bullet] then strip out else [bullet, 32] @ strip out)"
    by (rule clean_up_eq)
  show "tl (split_nl (clean_up out)) = tl (split_nl (strip out))"
    by (rule tl_lines_clean_up)
qed

theorem clean_up_marks_whole_output_witness:
  "startswith (clean_up (u '' hello '' @ [newline] @ u ''x  '')) [bullet]
   \<and> clean_up (u '' hello '' @ [newline] @ u ''x  '') = [bullet] @ u '' hello '' @ [newline] @ u ''x''
   \<and> tl (split_nl (clean_up (u '' hello '' @ [newline] @ u ''x  ''))) = [u ''x'']"
  using clean_up_marks_whole_output [of "u '' hello '' @ [newline] @ u ''x  ''"]
  by (simp add: strip_def lstrip_def rstrip_def isspace_def startswith_def u_def bullet_def newline_def)

text \<open>
  Claim C5 as stated fails: in the output \<open>"\<bullet> a\nb"\<close> the clean-up changes nothing, and
  its second line \<open>b\<close> is left without the bullet marker.
\<close>

theorem clean_up_every_line_counterexample:
  "clean_up ([bullet] @ u '' a'' @ [newline] @ u ''b'') = [bullet] @ u '' a'' @ [newline] @ u ''b''
   \<and> split_nl (clean_up ([bullet] @ u '' a'' @ [newline] @ u ''b'')) = [[bullet] @ u '' a'', u ''b'']
   \<and> \<not> startswith (u ''b'') [bullet]"
  by (simp add: clean_up_def strip_def lstrip_def rstrip_def isspace_def startswith_def u_def
      bullet_def newline_def)

section \<open>Properties of the transcript formatter\<close>

lemma lines_no_newline: "l \<in> set (split_nl s) \<Longrightarrow> newline \<notin> set l"
proof (induction s arbitrary: l)
  case Nil
  then show ?case by simp
next
  case (Cons c cs)
  then show ?case
    by (cases "split_nl cs") (auto split: if_splits)
qed

lemma set_strip: "set (strip l) \<subseteq> set l"
  by (auto simp: strip_def lstrip_def rstrip_def dest!: set_dropWhileD)

lemma strip_Nil: "strip [] = []"
  by (simp add: strip_def lstrip_def rstrip_def)

lemma strip_strip: "strip (strip l) = strip l"
proof (cases "strip l = []")
  case True
  then show ?thesis by (simp add: strip_Nil)
next
  case False
  let ?a = "dropWhile isspace l"
  let ?b = "rev (dropWhile isspace (rev ?a))"
  have b: "strip l = ?b" by (simp add: strip_def lstrip_def rstrip_def)
  with False have nb: "?b \<noteq> []" by simp
  have na: "?a \<noteq> []"
  proof
    assume "?a = []"
    then have "?b = []" by (simp only: rev.simps dropWhile.simps)
    with nb show False by blast
  qed
  have hda: "\<not> isspace (hd ?a)" using na by (rule hd_dropWhile)
  have pre: "\<exists>zs. ?a = ?b @ zs"
  proof -
    have "rev ?a = takeWhile isspace (rev ?a) @ dropWhile isspace (rev ?a)" by simp
    then have "?a = rev (takeWhile isspace (rev ?a) @ dropWhile isspace (rev ?a))"
      by (metis rev_rev_ident)
    then show ?thesis by (metis rev_append)
  qed
  then have "hd ?a = hd ?b" using nb by (metis hd_append2)
  with hda have h: "\<not> isspace (hd ?b)" by simp
  have "dropWhile isspace (rev ?a) \<noteq> []"
    using nb by (simp only: rev_is_Nil_conv not_False_eq_True)
  then have "\<not> isspace (hd (dropWhile isspace (rev ?a)))"
    by (rule hd_dropWhile)
  then have l: "\<not> isspace (hd (rev ?b))" by simp
  have 1: "dropWhile isspace ?b = ?b" using h by (simp add: dropWhile_eq_self_iff)
  have 2: "dropWhile isspace (rev ?b) = rev ?b" using l by (simp add: dropWhile_eq_self_iff)
  show ?thesis
    unfolding b
    apply (subst strip_def)
    apply (simp only: lstrip_def rstrip_def 1 2)
    apply simp
    done
qed

lemma split_nl_no_newline: "newline \<notin> set l \<Longrightarrow> split_nl l = [l]"
  by (induction l) auto

lemma split_nl_append: "newline \<notin> set l \<Longrightarrow> split_nl (l @ newline # s) = l # split_nl s"
  by (induction l) auto

lemma blocks_join:
  "\<forall>l \<in> set ls. newline \<notin> set l \<and> strip l \<noteq> [] \<Longrightarrow>
   blocks (join [newline, newline] ls) = map (\<lambda>l. [l]) ls"
proof (induction ls)
  case Nil
  show ?case by (simp add: blocks_def strip_Nil)
next
  case (Cons l ls)
  show ?case
  proof (cases ls)
    case Nil
    with Cons.prems show ?thesis
      by (simp add: blocks_def split_nl_no_newline)
  next
    case (Cons y ys)
    have "split_nl (join [newline, newline] (l # y # ys)) = l # [] # split_nl (join [newline, newline] (y # ys))"
      using Cons.prems by (simp add: split_nl_append del: split_nl.simps) simp
    moreover have "blocks (join [newline, newline] (y # ys)) = map (\<lambda>l. [l]) (y # ys)"
      using Cons.IH Cons.prems Cons by simp
    ultimately show ?thesis
      using Cons.prems Cons by (simp add: blocks_def strip_Nil)
  qed
qed

lemma blocks_markdown_content:
  "blocks (markdown_content t)
     = map (\<lambda>line. [strip line]) (filter (\<lambda>line. strip line \<noteq> []) (split_nl t))"
proof -
  have "\<forall>l \<in> set (map strip (filter (\<lambda>line. strip line \<noteq> []) (split_nl t))).
          newline \<notin> set l \<and> strip l \<noteq> []"
    using lines_no_newline set_strip by (fastforce simp: strip_strip)
  from blocks_join [OF this] show ?thesis
    by (simp add: markdown_content_def comp_def)
qed

text \<open>With the template \<open>{content}\<close> the page that is written is the HTML of the
  transcript, as the converter gave it.\<close>

lemma format_with_content:
  assumes "encodable transcript"
    and "open_w env (path_join transcript_dir
            (u ''transcript_'' @ take 10 (md5_hexdigest env transcript) @ u ''.html'')) = Inr ()"
  shows "fst (snd (format_with (u ''{content}'') env transcript_dir transcript summary tweet_url fs))
           (path_join transcript_dir
              (u ''transcript_'' @ take 10 (md5_hexdigest env transcript) @ u ''.html''))
         = Some (transcript_html env transcript)"
  using assms
  by (simp add: format_with_def py_format_def build_string.simps parse_field_def render_field_def
      may_be_decimal_def is_digit_def u_def Let_def)

text \<open>
  Claim C9, as the code has it. The HTML of the transcript is what the markdown
  converter makes of a text that \<open>format_transcript\<close> prepares line by line: the
  transcript's non-blank lines, each stripped of surrounding whitespace, with a blank
  line between any two of them. In that text every non-blank line of the transcript is
  a block of its own, also when the line before it or after it is not blank, and the
  blank lines of the transcript are dropped. So the runs of consecutive lines of the
  transcript do not reach the converter: two transcripts with the same non-blank
  lines (stripped) get the same HTML, whatever the converter is and however blank
  lines group the lines.
\<close>

theorem each_line_its_own_block:
  "transcript_html env t
     = markdown env (join [newline, newline]
         (map strip (filter (\<lambda>line. strip line \<noteq> []) (split_nl t))))
   \<and> blocks (markdown_content t)
       = map (\<lambda>line. [strip line]) (filter (\<lambda>line. strip line \<noteq> []) (split_nl t))
   \<and> (map strip (filter (\<lambda>line. strip line \<noteq> []) (split_nl t))
         = map strip (filter (\<lambda>line. strip line \<noteq> []) (split_nl t'))
        \<longrightarrow> transcript_html env t = transcript_html env t')"
proof (intro conjI impI)
  show "transcript_html env t
     = markdown env (join [newline, newline]
         (map strip (filter (\<lambda>line. strip line \<noteq> []) (split_nl t))))"
    by (simp add: transcript_html_def markdown_content_def)
  show "blocks (markdown_content t)
       = map (\<lambda>line. [strip line]) (filter (\<lambda>line. strip line \<noteq> []) (split_nl t))"
    by (rule blocks_markdown_content)
  assume "map strip (filter (\<lambda>line. strip line \<noteq> []) (split_nl t))
         = map strip (filter (\<lambda>line. strip line \<noteq> []) (split_nl t'))"
  then have "markdown_content t = markdown_content t'"
    by (simp only: markdown_content_def)
  then show "transcript_html env t = transcript_html env t'"
    by (simp only: transcript_html_def)
qed

theorem each_line_its_own_block_witness:
  "blocks (markdown_content (u '' a'' @ [newline] @ u ''b '' @ [newline, newline] @ u ''c''))
     = [[u ''a''], [u ''b''], [u ''c'']]
   \<and> transcript_html
        \<lparr>markdown = (\<lambda>s. u ''<p>'' @ s @ u ''</p>''),
         md5_hexdigest = (\<lambda>s. u ''5eb63bbbe01eeed093cb22bb8f5acdc3''),
         now_strftime = u ''November 04, 2026'', open_w = (\<lambda>p. Inr ()),
         environ = (\<lambda>k. None), format_other = (\<lambda>n c s. Inl (ValueError []))\<rparr>
        (u '' a'' @ [newline] @ u ''b '' @ [newline, newline] @ u ''c'')
     = transcript_html
        \<lparr>markdown = (\<lambda>s. u ''<p>'' @ s @ u ''</p>''),
         md5_hexdigest = (\<lambda>s. u ''5eb63bbbe01eeed093cb22bb8f5acdc3''),
         now_strftime = u ''November 04, 2026'', open_w = (\<lambda>p. Inr ()),
         environ = (\<lambda>k. None), format_other = (\<lambda>n c s. Inl (ValueError []))\<rparr>
        (u ''a'' @ [newline, newline] @ u ''b'' @ [newline] @ u ''c'')"
proof -
  let ?env = "\<lparr>markdown = (\<lambda>s. u ''<p>'' @ s @ u ''</p>''),
         md5_hexdigest = (\<lambda>s. u ''5eb63bbbe01eeed093cb22bb8f5acdc3''),
         now_strftime = u ''November 04, 2026'', open_w = (\<lambda>p. Inr ()),
         environ = (\<lambda>k. None), format_other = (\<lambda>n c s. Inl (ValueError []))\<rparr>"
  let ?t = "u '' a'' @ [newline] @ u ''b '' @ [newline, newline] @ u ''c''"
  let ?t' = "u ''a'' @ [newline, newline] @ u ''b'' @ [newline] @ u ''c''"
  note here = each_line_its_own_block [where env = ?env and t = ?t and t' = ?t']
  have same: "map strip (filter (\<lambda>line. strip line \<noteq> []) (split_nl ?t))
         = map strip (filter (\<lambda>line. strip line \<noteq> []) (split_nl ?t'))"
    by (simp add: strip_def lstrip_def rstrip_def isspace_def u_def newline_def)
  have lines: "map (\<lambda>line. [strip line]) (filter (\<lambda>line. strip line \<noteq> []) (split_nl ?t))
         = [[u ''a''], [u ''b''], [u ''c'']]"
    by (simp add: strip_def lstrip_def rstrip_def isspace_def u_def newline_def)
  from here have "blocks (markdown_content ?t)
       = map (\<lambda>line. [strip line]) (filter (\<lambda>line. strip line \<noteq> []) (split_nl ?t))"
    by (rule conjunct1 [OF conjunct2])
  with lines have first: "blocks (markdown_content ?t) = [[u ''a''], [u ''b''], [u ''c'']]"
    by (rule trans [rotated])
  from here have "map strip (filter (\<lambda>line. strip line \<noteq> []) (split_nl ?t))
         = map strip (filter (\<lambda>line. strip line \<noteq> []) (split_nl ?t'))
        \<longrightarrow> transcript_html ?env ?t = transcript_html ?env ?t'"
    by (rule conjunct2 [OF conjunct2])
  with same have second: "transcript_html ?env ?t = transcript_html ?env ?t'"
    by (rule rev_mp)
  from first second show ?thesis
    by (rule conjI)
qed

text \<open>
  Claim C9 as stated fails: the two consecutive lines of \<open>"a\nb"\<close> are one run of
  non-empty lines, so one paragraph in the claim's words; the text that the formatter
  hands to the converter has them as two blocks with a blank line between them. That
  text, and so the HTML, is the same as for \<open>"a\n\nb"\<close>, whose lines are two runs:
  whatever the converter is, the blank lines of the transcript do not decide where its
  paragraphs are.
\<close>

theorem runs_of_lines_counterexample:
  "blocks (u ''a'' @ [newline] @ u ''b'') = [[u ''a'', u ''b'']]
   \<and> blocks (markdown_content (u ''a'' @ [newline] @ u ''b'')) = [[u ''a''], [u ''b'']]
   \<and> markdown_content (u ''a'' @ [newline] @ u ''b'') = u ''a'' @ [newline, newline] @ u ''b''
   \<and> blocks (u ''a'' @ [newline, newline] @ u ''b'') = [[u ''a''], [u ''b'']]
   \<and> (\<forall>env. transcript_html env (u ''a'' @ [newline] @ u ''b'')
              = transcript_html env (u ''a'' @ [newline, newline] @ u ''b''))"
  by (simp add: blocks_def transcript_html_def markdown_content_def strip_def lstrip_def rstrip_def
      isspace_def u_def newline_def)

section \<open>Properties of the mention watcher\<close>

lemma py_max_nonempty: "xs \<noteq> [] \<Longrightarrow> py_max xs = Inr (Max (set xs))"
proof (cases xs)
  case Nil
  assume "xs \<noteq> []"
  with Nil show ?thesis by simp
next
  case (Cons a list)
  have "Max (set (a # list)) = fold max list a"
    by (rule Max.set_eq_fold)
  with Cons show ?thesis by simp
qed

lemma get_new_mentions_batch:
  assumes "get_me c = Inr me"
    and "get_users_mentions c (user_id me) (last_mention_id b) = Inr (Some batch)"
    and "batch \<noteq> []"
  shows "fst (get_new_mentions c b) =
           (filter is_reply batch, b\<lparr>last_mention_id := Some (Max (tweet_id ` set batch))\<rparr>)"
  using assms by (simp add: get_new_mentions_def Let_def py_max_nonempty)

lemma get_new_mentions_filter:
  "fst (fst (get_new_mentions c b)) = filter is_reply (raw_batch c b)"
  by (auto simp: get_new_mentions_def raw_batch_def Let_def py_max_nonempty
      split: sum.splits option.splits)

lemma get_new_mentions_cursor:
  "last_mention_id (snd (fst (get_new_mentions c b))) =
     (if raw_batch c b = [] then last_mention_id b else Some (Max (tweet_id ` set (raw_batch c b))))"
  by (auto simp: get_new_mentions_def raw_batch_def Let_def py_max_nonempty
      split: sum.splits option.splits)

lemma raw_batch_newer:
  "honours_since_id c \<Longrightarrow> last_mention_id b = Some cur \<Longrightarrow> m \<in> set (raw_batch c b)
     \<Longrightarrow> cur < tweet_id m"
  unfolding raw_batch_def honours_since_id_def
  by (auto split: sum.splits option.splits dest!: sym [of "Inr _"])

lemma poll_step:
  assumes "honours_since_id c" and "last_mention_id b = Some cur"
  shows "(\<forall>m \<in> set (fst (fst (get_new_mentions c b))). cur < tweet_id m)
       \<and> (\<exists>cur'. last_mention_id (snd (fst (get_new_mentions c b))) = Some cur' \<and> cur \<le> cur')"
proof -
  have newer: "\<forall>m \<in> set (raw_batch c b). cur < tweet_id m"
    using assms raw_batch_newer by blast
  have "cur \<le> Max (tweet_id ` set (raw_batch c b))" if "raw_batch c b \<noteq> []"
  proof -
    from that obtain m where m: "m \<in> set (raw_batch c b)" by (cases "raw_batch c b") auto
    then have "tweet_id m \<le> Max (tweet_id ` set (raw_batch c b))" by simp
    moreover from newer m have "cur < tweet_id m" by blast
    ultimately show ?thesis by linarith
  qed
  with newer assms show ?thesis
    by (simp add: get_new_mentions_filter get_new_mentions_cursor)
qed

lemma polls_newer:
  "\<forall>c \<in> set cs. honours_since_id c \<Longrightarrow> last_mention_id b = Some cur \<Longrightarrow>
   \<forall>ms \<in> set (fst (polls cs b)). \<forall>m \<in> set ms. cur < tweet_id m"
proof (induction cs arbitrary: b cur)
  case Nil
  show ?case by simp
next
  case (Cons c cs)
  obtain ms b' es where step: "get_new_mentions c b = ((ms, b'), es)"
    by (metis surj_pair)
  from Cons.prems poll_step [of c b cur] step
  obtain cur' where here: "\<forall>m \<in> set ms. cur < tweet_id m"
    and cur': "last_mention_id b' = Some cur'" "cur \<le> cur'"
    by auto
  from Cons.IH [OF _ cur'(1)] Cons.prems
  have "\<forall>ms \<in> set (fst (polls cs b')). \<forall>m \<in> set ms. cur' < tweet_id m"
    by simp
  with cur'(2) have "\<forall>ms \<in> set (fst (polls cs b')). \<forall>m \<in> set ms. cur < tweet_id m"
    by fastforce
  with here step show ?case
    by (simp split: prod.splits)
qed

lemma honours_newer_than: "honours_since_id (service_with (\<lambda>since_id. newer_than since_id ms))"
  by (simp add: honours_since_id_def service_with_def newer_than_def)

lemma raw_batch_service_with: "raw_batch (service_with answer) b = answer (last_mention_id b)"
  by (simp add: raw_batch_def service_with_def)

lemma is_reply_examples:
  "is_reply (reply_to i t)" "\<not> is_reply (plain_mention i t)" "\<not> is_reply (quote_of i t)"
  by (simp_all add: is_reply_def reply_to_def plain_mention_def quote_of_def u_def)

lemma tweet_id_examples:
  "tweet_id (reply_to i t) = i" "tweet_id (plain_mention i t) = i" "tweet_id (quote_of i t) = i"
  by (simp_all add: reply_to_def plain_mention_def quote_of_def)


lemma get_new_mentions_fst:
  "fst (get_new_mentions c b) =
     (filter is_reply (raw_batch c b),
      if raw_batch c b = [] then b
      else b\<lparr>last_mention_id := Some (Max (tweet_id ` set (raw_batch c b)))\<rparr>)"
  by (auto simp: get_new_mentions_def raw_batch_def Let_def py_max_nonempty
      split: sum.splits option.splits)

text \<open>
  Claim C1. When the service answers a poll with a non-empty raw batch, the cursor
  becomes the largest identifier of the raw batch, whatever the reply filter keeps, and
  the poll returns the replies of the batch. Every later poll asks for mentions newer
  than the cursor; so against services that honour \<open>since_id\<close>, no later poll returns a
  mention whose identifier is at most that maximum.
\<close>

theorem cursor_advances_to_raw_maximum:
  assumes "get_me c = Inr me"
    and "get_users_mentions c (user_id me) (last_mention_id b) = Inr (Some batch)"
    and "batch \<noteq> []"
    and "\<forall>c' \<in> set later. honours_since_id c'"
  shows "last_mention_id (snd (fst (get_new_mentions c b))) = Some (Max (tweet_id ` set batch))
       \<and> fst (fst (get_new_mentions c b)) = filter is_reply batch
       \<and> (\<forall>ms \<in> set (fst (polls later (snd (fst (get_new_mentions c b))))).
            \<forall>m \<in> set ms. Max (tweet_id ` set batch) < tweet_id m)"
proof -
  have now: "fst (get_new_mentions c b) =
           (filter is_reply batch, b\<lparr>last_mention_id := Some (Max (tweet_id ` set batch))\<rparr>)"
    using assms(1-3) by (rule get_new_mentions_batch)
  then have "last_mention_id (snd (fst (get_new_mentions c b))) = Some (Max (tweet_id ` set batch))"
    by simp
  from polls_newer [OF assms(4) this] now show ?thesis
    by simp
qed


text \<open>The case of the claim: the raw batch is 109 (a quote), 108 (no reference) and
  107 (a reply). The poll returns 107 alone and the cursor is 109; two later polls of a
  service that holds replies 107 to 110 return 110 and then nothing.\<close>

theorem cursor_advances_to_raw_maximum_witness:
  "fst (fst (get_new_mentions
      (service_with (\<lambda>since_id. [quote_of 109 (u ''a''), plain_mention 108 (u ''b''), reply_to 107 (u ''c'')]))
      \<lparr>last_mention_id = None\<rparr>)) = [reply_to 107 (u ''c'')]
   \<and> last_mention_id (snd (fst (get_new_mentions
      (service_with (\<lambda>since_id. [quote_of 109 (u ''a''), plain_mention 108 (u ''b''), reply_to 107 (u ''c'')]))
      \<lparr>last_mention_id = None\<rparr>))) = Some 109
   \<and> fst (polls
        [service_with (\<lambda>since_id. newer_than since_id
           [reply_to 110 (u ''d''), reply_to 109 (u ''a''), reply_to 108 (u ''b''), reply_to 107 (u ''c'')]),
         service_with (\<lambda>since_id. newer_than since_id
           [reply_to 110 (u ''d''), reply_to 109 (u ''a''), reply_to 108 (u ''b''), reply_to 107 (u ''c'')])]
        (snd (fst (get_new_mentions
          (service_with (\<lambda>since_id. [quote_of 109 (u ''a''), plain_mention 108 (u ''b''), reply_to 107 (u ''c'')]))
          \<lparr>last_mention_id = None\<rparr>)))) = [[reply_to 110 (u ''d'')], []]"
proof -
  let ?batch = "[quote_of 109 (u ''a''), plain_mention 108 (u ''b''), reply_to 107 (u ''c'')]"
  let ?c = "service_with (\<lambda>since_id. ?batch)"
  let ?b = "\<lparr>last_mention_id = None\<rparr>"
  let ?held = "[reply_to 110 (u ''d''), reply_to 109 (u ''a''), reply_to 108 (u ''b''), reply_to 107 (u ''c'')]"
  let ?later = "service_with (\<lambda>since_id. newer_than since_id ?held)"
  have me: "get_me ?c = Inr \<lparr>user_id = 1, username = u ''tldr''\<rparr>"
    by (simp add: service_with_def)
  have answer: "get_users_mentions ?c (user_id \<lparr>user_id = 1, username = u ''tldr''\<rparr>) (last_mention_id ?b)
      = Inr (Some ?batch)"
    by (simp add: service_with_def)
  have later: "\<forall>c' \<in> set [?later, ?later]. honours_since_id c'"
    by (simp add: honours_newer_than)
  have maximum: "Max (tweet_id ` set ?batch) = 109"
    by (simp add: tweet_id_examples)
  have first: "fst (get_new_mentions ?c ?b) = ([reply_to 107 (u ''c'')], \<lparr>last_mention_id = Some 109\<rparr>)"
    by (simp add: get_new_mentions_fst raw_batch_service_with is_reply_examples tweet_id_examples)
  have second: "fst (get_new_mentions ?later \<lparr>last_mention_id = Some 109\<rparr>)
      = ([reply_to 110 (u ''d'')], \<lparr>last_mention_id = Some 110\<rparr>)"
    by (simp add: get_new_mentions_fst raw_batch_service_with newer_than_def is_reply_examples
        tweet_id_examples)
  have third: "fst (get_new_mentions ?later \<lparr>last_mention_id = Some 110\<rparr>)
      = ([], \<lparr>last_mention_id = Some 110\<rparr>)"
    by (simp add: get_new_mentions_fst raw_batch_service_with newer_than_def is_reply_examples
        tweet_id_examples)
  have "fst (polls [?later, ?later] \<lparr>last_mention_id = Some 109\<rparr>) = [[reply_to 110 (u ''d'')], []]"
    by (simp add: case_prod_beta second third)
  with cursor_advances_to_raw_maximum [OF me answer _ later] first maximum show ?thesis
    by simp
qed


text \<open>
  Claim C6, as the code has it. \<open>get_new_mentions\<close> returns the mentions of the raw
  batch that are replies, in the order in which the service listed them: it neither
  sorts them nor compares them with the cursor. So the result is ascending by
  identifier when the raw batch is, and every returned identifier is greater than the
  cursor when the service honours \<open>since_id\<close>.
\<close>

theorem get_new_mentions_keeps_raw_order:
  "fst (fst (get_new_mentions c b)) = filter is_reply (raw_batch c b)
   \<and> list_all is_reply (fst (fst (get_new_mentions c b)))
   \<and> (sorted (map tweet_id (raw_batch c b))
        \<longrightarrow> sorted (map tweet_id (fst (fst (get_new_mentions c b)))))
   \<and> (honours_since_id c \<and> last_mention_id b = Some cur
        \<longrightarrow> (\<forall>m \<in> set (fst (fst (get_new_mentions c b))). cur < tweet_id m))"
  using poll_step [of c b cur]
  by (simp add: get_new_mentions_filter sorted_filter list_all_iff)

theorem get_new_mentions_keeps_raw_order_witness:
  "map tweet_id (fst (fst (get_new_mentions
      (service_with (\<lambda>since_id. newer_than since_id
         [reply_to 100 (u ''a''), reply_to 101 (u ''b''), plain_mention 105 (u ''c''), reply_to 107 (u ''d'')]))
      \<lparr>last_mention_id = Some 100\<rparr>))) = [101, 107]
   \<and> sorted (map tweet_id (fst (fst (get_new_mentions
      (service_with (\<lambda>since_id. newer_than since_id
         [reply_to 100 (u ''a''), reply_to 101 (u ''b''), plain_mention 105 (u ''c''), reply_to 107 (u ''d'')]))
      \<lparr>last_mention_id = Some 100\<rparr>))))
   \<and> list_all (\<lambda>m. 100 < tweet_id m) (fst (fst (get_new_mentions
      (service_with (\<lambda>since_id. newer_than since_id
         [reply_to 100 (u ''a''), reply_to 101 (u ''b''), plain_mention 105 (u ''c''), reply_to 107 (u ''d'')]))
      \<lparr>last_mention_id = Some 100\<rparr>)))"
proof -
  let ?held = "[reply_to 100 (u ''a''), reply_to 101 (u ''b''), plain_mention 105 (u ''c''), reply_to 107 (u ''d'')]"
  let ?c = "service_with (\<lambda>since_id. newer_than since_id ?held)"
  let ?b = "\<lparr>last_mention_id = Some 100\<rparr>"
  have raw: "raw_batch ?c ?b = [reply_to 101 (u ''b''), plain_mention 105 (u ''c''), reply_to 107 (u ''d'')]"
    by (simp add: raw_batch_service_with newer_than_def tweet_id_examples)
  have "honours_since_id ?c \<and> last_mention_id ?b = Some 100"
    by (simp add: honours_newer_than)
  with get_new_mentions_keeps_raw_order [of ?c ?b 100] raw show ?thesis
    by (simp add: is_reply_examples tweet_id_examples list_all_iff)
qed


text \<open>
  Claim C6 as stated fails on a raw batch that is not ascending: the service lists the
  replies 109 and 107 newest first, and they are returned in that order.
\<close>

theorem returned_in_ascending_order_counterexample:
  "map tweet_id (fst (fst (get_new_mentions
      (service_with (\<lambda>since_id. [reply_to 109 (u ''a''), reply_to 107 (u ''b'')]))
      \<lparr>last_mention_id = Some 100\<rparr>))) = [109, 107]
   \<and> \<not> sorted (map tweet_id (fst (fst (get_new_mentions
      (service_with (\<lambda>since_id. [reply_to 109 (u ''a''), reply_to 107 (u ''b'')]))
      \<lparr>last_mention_id = Some 100\<rparr>))))"
  by (simp add: service_with_def get_new_mentions_def is_reply_def reply_to_def u_def Let_def)

section \<open>Properties of the bot loop\<close>

lemma while_true_never_returns: "while_true service k b = None"
proof (cases "while_true service k b")
  case None
  then show ?thesis .
next
  case (Some b')
  have False
    by (rule while_true.raw_induct [where P = "\<lambda>service k b b'. False", OF _ Some]) blast
  then show ?thesis ..
qed

lemma get_new_mentions_events:
  "filter is_sleep (snd (get_new_mentions c b)) = []"
  "filter is_pipeline_call (snd (get_new_mentions c b)) = []"
  "filter is_poll (snd (get_new_mentions c b)) = [Call Get_me]"
  by (auto simp: get_new_mentions_def Let_def is_sleep_def is_pipeline_call_def is_poll_def
      pipeline_request_def split: sum.splits option.splits)

lemma process_mention_events:
  "filter is_sleep (process_mention m) = []"
  "filter is_pipeline_call (process_mention m) = []"
  "filter is_poll (process_mention m) = []"
  by (auto simp: process_mention_def mention_body_def is_sleep_def is_pipeline_call_def is_poll_def
      split: option.splits list.splits)

lemma filter_concat_Nil: "(\<And>x. filter P (f x) = []) \<Longrightarrow> filter P (concat (map f xs)) = []"
  by (induction xs) simp_all

lemma loop_pass_events:
  "filter is_sleep (fst (loop_pass c b)) = [Sleep 60]"
  "filter is_pipeline_call (fst (loop_pass c b)) = []"
  "filter is_poll (fst (loop_pass c b)) = [Call Get_me]"
  by (simp_all add: loop_pass_def case_prod_beta get_new_mentions_events process_mention_events
      filter_concat_Nil is_sleep_def is_pipeline_call_def is_poll_def)

lemma passes_events:
  "filter is_sleep (fst (passes n service k b)) = replicate n (Sleep 60)"
  "filter is_pipeline_call (fst (passes n service k b)) = []"
  "filter is_poll (fst (passes n service k b)) = replicate n (Call Get_me)"
  by (induction n arbitrary: k b) (simp_all add: case_prod_beta loop_pass_events)

lemma loop_pass_poll_fails:
  "get_me c = Inl e \<Longrightarrow>
     loop_pass c b = ([Call Get_me, Print (Error_getting_mentions e), Sleep 60], b)"
  "get_me c = Inr me \<Longrightarrow> get_users_mentions c (user_id me) (last_mention_id b) = Inl e \<Longrightarrow>
     loop_pass c b =
       ([Call Get_me, Call (Get_users_mentions (user_id me) (last_mention_id b)),
         Print (Error_getting_mentions e), Sleep 60], b)"
  by (simp_all add: loop_pass_def get_new_mentions_def)

lemma process_mention_cases:
  "tweet_text m = None \<Longrightarrow>
     process_mention m =
       [Print (Processing_mention None), Print (Error_processing_mention (tweet_id m) TypeError)]"
  "tweet_text m = Some t \<Longrightarrow> findall_urls t = video_url # others \<Longrightarrow>
     process_mention m = [Print (Processing_mention (Some t)), Print (Found_URL video_url)]"
  "tweet_text m = Some t \<Longrightarrow> findall_urls t = [] \<Longrightarrow>
     process_mention m = [Print (Processing_mention (Some t)), Print (No_URL_found (tweet_id m))]"
  by (simp_all add: process_mention_def mention_body_def)

lemma match_url_prefix: "match_url s = Some m \<Longrightarrow> \<exists>post. s = m @ post"
proof -
  assume a: "match_url s = Some m"
  define n :: nat where "n = (if startswith s (u ''https://'') then 8
               else if startswith s (u ''http://'') then 7 else 0)"
  from a have m: "m = take n s @ takeWhile is_url_char (drop n s)"
    by (auto simp: match_url_def Let_def n_def split: if_splits)
  have "s = take n s @ (takeWhile is_url_char (drop n s) @ dropWhile is_url_char (drop n s))"
    by simp
  with m show ?thesis by (metis append.assoc)
qed

lemma findall_urls_substring:
  "v \<in> set (findall_urls s) \<Longrightarrow> \<exists>pre post. s = pre @ v @ post"
proof (induction s rule: findall_urls.induct)
  case 1
  then show ?case by simp
next
  case (2 c cs)
  show ?case
  proof (cases "match_url (c # cs)")
    case None
    with 2 obtain pre post where "cs = pre @ v @ post" by auto
    then have "c # cs = (c # pre) @ v @ post" by simp
    then show ?thesis by blast
  next
    case (Some m)
    from match_url_prefix [OF Some] obtain rest where rest: "c # cs = m @ rest" by blast
    then have d: "drop (length m) (c # cs) = rest" by (metis append_eq_conv_conj)
    from 2(3) Some consider "v = m" | "v \<in> set (findall_urls (drop (length m) (c # cs)))"
      by auto
    then show ?thesis
    proof cases
      case 1
      with rest have "c # cs = [] @ v @ rest" by simp
      then show ?thesis by blast
    next
      case 2
      with "2.IH"(2) [OF Some] obtain pre post where "drop (length m) (c # cs) = pre @ v @ post"
        by blast
      with d rest have "c # cs = (m @ pre) @ v @ post" by simp
      then show ?thesis by blast
    qed
  qed
qed


lemma passes_Suc_end:
  "passes (Suc n) service k b =
     (fst (passes n service k b) @ fst (loop_pass (service (k + n)) (snd (passes n service k b))),
      snd (loop_pass (service (k + n)) (snd (passes n service k b))))"
proof (induction n arbitrary: k b)
  case 0
  show ?case by (simp add: case_prod_beta)
next
  case (Suc n)
  have "passes (Suc (Suc n)) service k b =
      (fst (loop_pass (service k) b) @ fst (passes (Suc n) service (Suc k) (snd (loop_pass (service k) b))),
       snd (passes (Suc n) service (Suc k) (snd (loop_pass (service k) b))))"
    by (simp add: case_prod_beta)
  also note Suc.IH [of "Suc k" "snd (loop_pass (service k) b)"]
  finally show ?case
    by (simp add: case_prod_beta)
qed

lemma findall_example: "findall_urls example_text = [example_url]"
  by (simp add: example_text_def example_url_def u_def match_url_def startswith_def is_url_char_def)

lemma example_pass:
  "loop_pass (service_with (\<lambda>since_id. [textless_reply 5, reply_to 6 example_text])) \<lparr>last_mention_id = None\<rparr>
     = ([Call Get_me, Call (Get_users_mentions 1 None),
         Print (Processing_mention None), Print (Error_processing_mention 5 TypeError),
         Print (Processing_mention (Some example_text)), Print (Found_URL example_url), Sleep 60],
        \<lparr>last_mention_id = Some 6\<rparr>)"
proof -
  have "is_reply (textless_reply 5)"
    by (simp add: is_reply_def textless_reply_def)
  moreover have "process_mention (textless_reply 5)
      = [Print (Processing_mention None), Print (Error_processing_mention 5 TypeError)]"
    by (simp add: process_mention_cases(1) textless_reply_def)
  moreover have "process_mention (reply_to 6 example_text)
      = [Print (Processing_mention (Some example_text)), Print (Found_URL example_url)]"
    by (rule process_mention_cases(2) [where others = "[]"]) (simp_all add: reply_to_def findall_example)
  ultimately show ?thesis
    by (simp add: loop_pass_def get_new_mentions_def service_with_def Let_def is_reply_examples
        tweet_id_examples textless_reply_def)
qed

text \<open>
  Claim C8. The loop never returns: it has no exit, and nothing in a pass raises past
  the handlers. After any number of passes another pass follows; every pass polls once
  and ends with the one sleep of 60 seconds. A poll that fails (the bot's identity or
  the mentions cannot be read) is caught inside \<open>get_new_mentions\<close>: the pass logs the
  error, sleeps 60 seconds and leaves the cursor as it was, and the next pass polls
  again. A mention whose processing raises is logged, and the pass goes on with the
  other mentions of the batch, each processed in turn. Once \<open>run\<close> has identified the
  bot at startup it is in the loop, whatever the passes meet.
\<close>

theorem loop_survives_failures:
  "while_true service k b = None
   \<and> passes (Suc n) service k b =
       (fst (passes n service k b) @ fst (loop_pass (service (k + n)) (snd (passes n service k b))),
        snd (loop_pass (service (k + n)) (snd (passes n service k b))))
   \<and> filter is_sleep (fst (passes n service k b)) = replicate n (Sleep 60)
   \<and> filter is_poll (fst (passes n service k b)) = replicate n (Call Get_me)
   \<and> fst (loop_pass c b) =
       snd (get_new_mentions c b)
       @ concat (map process_mention (fst (fst (get_new_mentions c b)))) @ [Sleep 60]
   \<and> (get_me c = Inl e
        \<longrightarrow> loop_pass c b = ([Call Get_me, Print (Error_getting_mentions e), Sleep 60], b))
   \<and> (get_me c = Inr me \<and> get_users_mentions c (user_id me) (last_mention_id b) = Inl e
        \<longrightarrow> loop_pass c b =
              ([Call Get_me, Call (Get_users_mentions (user_id me) (last_mention_id b)),
                Print (Error_getting_mentions e), Sleep 60], b))
   \<and> (tweet_text m = None
        \<longrightarrow> process_mention m =
              [Print (Processing_mention None), Print (Error_processing_mention (tweet_id m) TypeError)])
   \<and> (get_me c0 = Inr me \<longrightarrow> fst (run n c0 service b) = Looping)"
  using passes_Suc_end [of n service k b]
  by (simp add: while_true_never_returns passes_events loop_pass_poll_fails process_mention_cases(1))
     (simp add: loop_pass_def run_def case_prod_beta)

theorem loop_survives_failures_witness:
  "while_true
     (\<lambda>k. if k = 0 then failing_service (Raised (u ''503''))
          else if k = 1 then rate_limited_service (Raised (u ''429''))
          else service_with (\<lambda>since_id. [textless_reply 5, reply_to 6 example_text]))
     0 \<lparr>last_mention_id = None\<rparr> = None
   \<and> fst (passes 3
     (\<lambda>k. if k = 0 then failing_service (Raised (u ''503''))
          else if k = 1 then rate_limited_service (Raised (u ''429''))
          else service_with (\<lambda>since_id. [textless_reply 5, reply_to 6 example_text]))
     0 \<lparr>last_mention_id = None\<rparr>)
     = [Call Get_me, Print (Error_getting_mentions (Raised (u ''503''))), Sleep 60,
        Call Get_me, Call (Get_users_mentions 1 None),
        Print (Error_getting_mentions (Raised (u ''429''))), Sleep 60,
        Call Get_me, Call (Get_users_mentions 1 None),
        Print (Processing_mention None), Print (Error_processing_mention 5 TypeError),
        Print (Processing_mention (Some example_text)), Print (Found_URL example_url), Sleep 60]
   \<and> fst (run 3 (service_with (\<lambda>since_id. []))
     (\<lambda>k. if k = 0 then failing_service (Raised (u ''503''))
          else if k = 1 then rate_limited_service (Raised (u ''429''))
          else service_with (\<lambda>since_id. [textless_reply 5, reply_to 6 example_text]))
     \<lparr>last_mention_id = None\<rparr>) = Looping"
proof -
  let ?service = "\<lambda>k::nat. if k = 0 then failing_service (Raised (u ''503''))
          else if k = 1 then rate_limited_service (Raised (u ''429''))
          else service_with (\<lambda>since_id. [textless_reply 5, reply_to 6 example_text])"
  let ?b = "\<lparr>last_mention_id = None\<rparr>"
  let ?me = "\<lparr>user_id = 1, username = u ''tldr''\<rparr>"
  have fails: "get_me (failing_service (Raised (u ''503''))) = Inl (Raised (u ''503''))"
    by (simp add: failing_service_def)
  have started: "get_me (service_with (\<lambda>since_id. [])) = Inr ?me"
    by (simp add: service_with_def)
  from loop_survives_failures
    [where service = ?service and k = 0 and b = ?b and n = 3
       and c = "failing_service (Raised (u ''503''))" and e = "Raised (u ''503'')"
       and m = "textless_reply 5" and ?c0.0 = "service_with (\<lambda>since_id. [])" and me = ?me]
    fails started
  have never: "while_true ?service 0 ?b = None"
    and first: "loop_pass (failing_service (Raised (u ''503''))) ?b
      = ([Call Get_me, Print (Error_getting_mentions (Raised (u ''503''))), Sleep 60], ?b)"
    and runs: "fst (run 3 (service_with (\<lambda>since_id. [])) ?service ?b) = Looping"
    by simp_all
  have limited: "get_me (rate_limited_service (Raised (u ''429''))) = Inr ?me
      \<and> get_users_mentions (rate_limited_service (Raised (u ''429''))) (user_id ?me) (last_mention_id ?b)
          = Inl (Raised (u ''429''))"
    by (simp add: rate_limited_service_def)
  from loop_survives_failures
    [where c = "rate_limited_service (Raised (u ''429''))" and e = "Raised (u ''429'')"
       and b = ?b and me = ?me] limited
  have second: "loop_pass (rate_limited_service (Raised (u ''429''))) ?b
      = ([Call Get_me, Call (Get_users_mentions 1 None),
          Print (Error_getting_mentions (Raised (u ''429''))), Sleep 60], ?b)"
    by simp
  have "fst (passes 3 ?service 0 ?b)
     = [Call Get_me, Print (Error_getting_mentions (Raised (u ''503''))), Sleep 60,
        Call Get_me, Call (Get_users_mentions 1 None),
        Print (Error_getting_mentions (Raised (u ''429''))), Sleep 60,
        Call Get_me, Call (Get_users_mentions 1 None),
        Print (Processing_mention None), Print (Error_processing_mention 5 TypeError),
        Print (Processing_mention (Some example_text)), Print (Found_URL example_url), Sleep 60]"
    by (simp add: numeral_3_eq_3 first second example_pass)
  with never runs show ?thesis
    by simp
qed

lemma pipeline_calls_leave_requests:
  "is_pipeline_call (hd (snd (download_video_audio lib video_url)))"
  "is_pipeline_call (hd (snd (transcribe_video rc audio_path)))"
  by (simp_all add: download_video_audio_def transcribe_video_def is_pipeline_call_def
      pipeline_request_def Let_def split: sum.splits option.splits)

text \<open>
  Claim C3, as the code has it. For a polled mention whose text contains a URL, the loop
  prints the text and the first URL found in it, and that is all: where the video would
  be processed the source has a comment only. No pass of the loop sends a request of
  the pipeline (no download, no transcription, no summary, no transcript file), while
  the fetch and the transcription, had they been called, would each start with one;
  and the source has no code that posts a reply.
\<close>

theorem loop_only_extracts_the_url:
  "filter is_pipeline_call (fst (passes n service k b)) = []
   \<and> is_pipeline_call (hd (snd (download_video_audio lib video_url)))
   \<and> is_pipeline_call (hd (snd (transcribe_video rc audio_path)))
   \<and> (tweet_text m = Some t \<and> findall_urls t = video_url # others
        \<longrightarrow> process_mention m = [Print (Processing_mention (Some t)), Print (Found_URL video_url)])"
proof (intro conjI impI)
  show "filter is_pipeline_call (fst (passes n service k b)) = []"
    by (rule passes_events)
  show "is_pipeline_call (hd (snd (download_video_audio lib video_url)))"
    by (rule pipeline_calls_leave_requests)
  show "is_pipeline_call (hd (snd (transcribe_video rc audio_path)))"
    by (rule pipeline_calls_leave_requests)
  assume "tweet_text m = Some t \<and> findall_urls t = video_url # others"
  then show "process_mention m = [Print (Processing_mention (Some t)), Print (Found_URL video_url)]"
    by (simp add: process_mention_cases(2))
qed

theorem loop_only_extracts_the_url_witness:
  "process_mention (reply_to 6 example_text)
     = [Print (Processing_mention (Some example_text)), Print (Found_URL example_url)]
   \<and> filter is_pipeline_call
        (fst (passes 1 (\<lambda>k. service_with (\<lambda>since_id. [reply_to 6 example_text])) 0
           \<lparr>last_mention_id = None\<rparr>)) = []"
  using loop_only_extracts_the_url
    [where n = 1 and service = "\<lambda>k. service_with (\<lambda>since_id. [reply_to 6 example_text])"
       and k = 0 and b = "\<lparr>last_mention_id = None\<rparr>"
       and m = "reply_to 6 example_text" and t = example_text and video_url = example_url
       and others = "[]"]
  by (simp add: findall_example reply_to_def)

text \<open>
  Claim C3 as stated fails: for the reply \<open>@bot transcribe
  https://video.example/watch?v=abc please\<close> the pass polls, prints the text and the URL
  and sleeps; the audio of the URL is never asked for, nor is any later step taken.
\<close>

theorem full_pipeline_counterexample:
  "fst (loop_pass (service_with (\<lambda>since_id. [reply_to 6 example_text])) \<lparr>last_mention_id = None\<rparr>)
     = [Call Get_me, Call (Get_users_mentions 1 None),
        Print (Processing_mention (Some example_text)), Print (Found_URL example_url), Sleep 60]
   \<and> Call (YouTube_audio example_url)
        \<notin> set (fst (loop_pass (service_with (\<lambda>since_id. [reply_to 6 example_text]))
                   \<lparr>last_mention_id = None\<rparr>))
   \<and> \<not> list_ex is_pipeline_call
        (fst (loop_pass (service_with (\<lambda>since_id. [reply_to 6 example_text]))
                   \<lparr>last_mention_id = None\<rparr>))"
proof -
  have "process_mention (reply_to 6 example_text)
      = [Print (Processing_mention (Some example_text)), Print (Found_URL example_url)]"
    by (rule process_mention_cases(2) [where others = "[]"]) (simp_all add: reply_to_def findall_example)
  then have "fst (loop_pass (service_with (\<lambda>since_id. [reply_to 6 example_text])) \<lparr>last_mention_id = None\<rparr>)
     = [Call Get_me, Call (Get_users_mentions 1 None),
        Print (Processing_mention (Some example_text)), Print (Found_URL example_url), Sleep 60]"
    by (simp add: loop_pass_def get_new_mentions_def service_with_def Let_def is_reply_examples
        tweet_id_examples)
  then show ?thesis
    by (simp add: is_pipeline_call_def pipeline_request_def)
qed

lemma found_url_in_text:
  "Print (Found_URL v) \<in> set (process_mention m) \<Longrightarrow>
     \<exists>t pre post. tweet_text m = Some t \<and> v \<in> set (findall_urls t) \<and> t = pre @ v @ post"
proof -
  assume a: "Print (Found_URL v) \<in> set (process_mention m)"
  then obtain t others where t: "tweet_text m = Some t" and v: "findall_urls t = v # others"
    by (auto simp: process_mention_def mention_body_def split: option.splits list.splits)
  then have "v \<in> set (findall_urls t)" by simp
  with findall_urls_substring [of v t] t show ?thesis by blast
qed

text \<open>
  Claim C10. \<open>get_video_url\<close> returns \<open>None\<close> for every tweet identifier: when the
  request fails, when the tweet has media and when it has none. A URL that the loop
  finds is a match of the pattern in the text of the mention, so a part of that text.
\<close>

theorem get_video_url_is_None:
  "fst (get_video_url c tid) = None
   \<and> (Print (Found_URL v) \<in> set (process_mention m)
        \<longrightarrow> (\<exists>t pre post. tweet_text m = Some t \<and> v \<in> set (findall_urls t) \<and> t = pre @ v @ post))"
  using found_url_in_text [of v m]
  by (simp add: get_video_url_def split: sum.splits)

theorem get_video_url_is_None_witness:
  "fst (get_video_url
      \<lparr>get_me = Inr \<lparr>user_id = 1, username = u ''tldr''\<rparr>,
       get_users_mentions = (\<lambda>uid since_id. Inr None),
       get_tweet = (\<lambda>tid. Inr \<lparr>tweet_includes =
          [(u ''media'', [\<lparr>media_type = u ''video'', media_url = u ''https://video.example/v.mp4''\<rparr>])]\<rparr>)\<rparr>
      6) = None
   \<and> Print (Found_URL example_url) \<in> set (process_mention (reply_to 6 example_text))
   \<and> (\<exists>pre post. example_text = pre @ example_url @ post)"
proof -
  have "process_mention (reply_to 6 example_text)
      = [Print (Processing_mention (Some example_text)), Print (Found_URL example_url)]"
    by (rule process_mention_cases(2) [where others = "[]"]) (simp_all add: reply_to_def findall_example)
  then have "Print (Found_URL example_url) \<in> set (process_mention (reply_to 6 example_text))"
    by simp
  with get_video_url_is_None
    [of "\<lparr>get_me = Inr \<lparr>user_id = 1, username = u ''tldr''\<rparr>,
       get_users_mentions = (\<lambda>uid since_id. Inr None),
       get_tweet = (\<lambda>tid. Inr \<lparr>tweet_includes =
          [(u ''media'', [\<lparr>media_type = u ''video'', media_url = u ''https://video.example/v.mp4''\<rparr>])]\<rparr>)\<rparr>"
        6 example_url "reply_to 6 example_text"]
  show ?thesis
    by (auto simp: reply_to_def)
qed

section \<open>The template and \<open>str.format\<close>\<close>

lemma join_append:
  "xs \<noteq> [] \<Longrightarrow> ys \<noteq> [] \<Longrightarrow> join sep (xs @ ys) = join sep xs @ sep @ join sep ys"
proof (induction xs)
  case Nil
  then show ?case by simp
next
  case (Cons x xs)
  show ?case
  proof (cases xs)
    case Nil
    with Cons.prems show ?thesis by (cases ys) simp_all
  next
    case (Cons x' xs')
    with Cons.IH Cons.prems show ?thesis by simp
  qed
qed

lemma template_split:
  "HTML_TEMPLATE = join [newline] TEMPLATE_head @ [newline] @ join [newline] TEMPLATE_rest"
proof -
  have "TEMPLATE_head \<noteq> []" unfolding TEMPLATE_head_def by (rule list.distinct)
  moreover have "TEMPLATE_rest \<noteq> []" unfolding TEMPLATE_rest_def by (rule list.distinct)
  ultimately show ?thesis unfolding HTML_TEMPLATE_def by (rule join_append)
qed

text \<open>
  The template is written for \<open>str.format\<close>, but the braces of its style sheet are
  not doubled. After \<open>{title}\<close> the next brace opens the rule for \<open>body\<close>, and the
  interpreter reads that rule as a replacement field: its name is the text up to the
  first colon (a newline, sixteen spaces and \<open>font-family\<close>) and the rest of the rule
  is its format spec. No keyword argument has that name.
\<close>

lemma first_style_rule_is_a_field:
  assumes "kwargs (u ''title'') = Some title"
    and "kwargs (newline # u ''                font-family'') = None"
  shows "build_string kwargs other (join [newline] TEMPLATE_head @ rest)
           = Inl (KeyError (newline # u ''                font-family''))"
  using assms
  by (simp add: TEMPLATE_head_def u_def newline_def build_string.simps parse_field_def
      render_field_def may_be_decimal_def is_digit_def)

lemma template_format_raises:
  "py_format other HTML_TEMPLATE
     [(u ''title'', title), (u ''date'', date), (u ''tweet_url'', tweet_url),
      (u ''summary'', summary), (u ''content'', content)]
   = Inl (KeyError (newline # u ''                font-family''))"
  unfolding py_format_def template_split
  by (rule first_style_rule_is_a_field) (simp_all add: u_def newline_def)


lemma format_transcript_raises:
  "format_transcript env transcript_dir transcript summary tweet_url fs
     = (Inl (if encodable transcript then KeyError (newline # u ''                font-family'')
             else UnicodeEncodeError), fs, [])"
  by (simp add: format_transcript_def format_with_def Let_def template_format_raises)

text \<open>
  With a template that \<open>str.format\<close> accepts, the body of \<open>format_transcript\<close> does
  what it is written for: the filename it returns is \<open>transcript_\<close>, the first 10
  hexadecimal digits of the transcript's digest and \<open>.html\<close>, whatever the summary and
  the source URL are, and the page is stored under that name in the transcript
  directory, in the place of a page stored there before.
\<close>

lemma format_with_filename:
  assumes "fst (format_with template env transcript_dir transcript summary tweet_url fs) = Inr filename"
  shows "filename = u ''transcript_'' @ take 10 (md5_hexdigest env transcript) @ u ''.html''"
    and "\<exists>html. fst (snd (format_with template env transcript_dir transcript summary tweet_url fs))
            = fs(path_join transcript_dir filename \<mapsto> html)"
  using assms
  by (auto simp: format_with_def Let_def split: if_splits sum.splits)

lemma format_with_same_transcript_same_filename:
  assumes "fst (format_with template env transcript_dir transcript summary1 url1 fs1) = Inr filename1"
    and "fst (format_with template env transcript_dir transcript summary2 url2 fs2) = Inr filename2"
  shows "filename1 = filename2"
  using assms format_with_filename(1) by blast

lemma format_with_example:
  "fst (format_with (u ''<h1>{title}</h1>{{{date}}} {summary} {content}'')
      \<lparr>markdown = (\<lambda>s. s), md5_hexdigest = (\<lambda>s. u ''5eb63bbbe01eeed093cb22bb8f5acdc3''),
       now_strftime = u ''November 04, 2026'', open_w = (\<lambda>p. Inr ()),
       environ = (\<lambda>k. None), format_other = (\<lambda>n c s. Inl (ValueError []))\<rparr>
      (u ''transcripts'') (u ''hello world'') (u ''a point'') (u ''https://x.example/status/1'')
      (\<lambda>p. None)) = Inr (u ''transcript_5eb63bbbe0.html'')"
  by (simp add: format_with_def py_format_def build_string.simps parse_field_def render_field_def
      may_be_decimal_def is_digit_def encodable_def u_def Let_def)

text \<open>
  Claim C2 is what the code sets out to do (the filename is built from the first 10
  hexadecimal digits of the transcript's MD5 alone), but the code never gets there:
  for every transcript, summary and source URL, \<open>format_transcript\<close> raises before the
  filename is built, with \<open>KeyError\<close> from \<open>HTML_TEMPLATE.format\<close> (or
  \<open>UnicodeEncodeError\<close> when the transcript cannot be encoded). It returns no filename
  and leaves the transcript directory as it was, and \<open>save_transcript\<close> returns \<open>None\<close>.
\<close>

theorem format_transcript_never_returns_a_filename:
  "fst (format_transcript env transcript_dir transcript summary tweet_url fs)
     = Inl (if encodable transcript then KeyError (newline # u ''                font-family'')
            else UnicodeEncodeError)
   \<and> fst (snd (format_transcript env transcript_dir transcript summary tweet_url fs)) = fs
   \<and> fst (save_transcript env transcript_dir transcript summary tweet_url fs) = None"
proof -
  have raises: "format_transcript env transcript_dir transcript summary tweet_url fs
     = (Inl (if encodable transcript then KeyError (newline # u ''                font-family'')
             else UnicodeEncodeError), fs, [])"
    by (rule format_transcript_raises)
  then have "fst (save_transcript env transcript_dir transcript summary tweet_url fs) = None"
    by (simp add: save_transcript_def)
  with raises show ?thesis
    by simp
qed

theorem format_transcript_never_returns_a_filename_witness:
  "fst (format_transcript
      \<lparr>markdown = (\<lambda>s. u ''<p>'' @ s @ u ''</p>''), md5_hexdigest = (\<lambda>s. u ''5eb63bbbe01eeed093cb22bb8f5acdc3''),
       now_strftime = u ''November 04, 2026'', open_w = (\<lambda>p. Inr ()),
       environ = (\<lambda>k. None), format_other = (\<lambda>n c s. Inl (ValueError []))\<rparr>
      (u ''transcripts'') (u ''hello world'') ([bullet] @ u '' a point'') (u ''https://x.example/status/1'')
      (\<lambda>p. None))
     = Inl (KeyError (newline # u ''                font-family''))"
  using format_transcript_never_returns_a_filename
    [of "\<lparr>markdown = (\<lambda>s. u ''<p>'' @ s @ u ''</p>''), md5_hexdigest = (\<lambda>s. u ''5eb63bbbe01eeed093cb22bb8f5acdc3''),
       now_strftime = u ''November 04, 2026'', open_w = (\<lambda>p. Inr ()),
       environ = (\<lambda>k. None), format_other = (\<lambda>n c s. Inl (ValueError []))\<rparr>"
      "u ''transcripts''" "u ''hello world''" "[bullet] @ u '' a point''" "u ''https://x.example/status/1''"
      "\<lambda>p. None"]
  by (simp add: encodable_def u_def)

section \<open>Failures of the pipeline operations\<close>

lemma summarize_chunks_fails:
  "i < length cs \<Longrightarrow> run_llama rc (k + i) (prompt (cs ! i)) = Inl e \<Longrightarrow>
     \<exists>e' es. summarize_chunks rc k cs acc = (Inl e', es)"
proof (induction cs arbitrary: k acc i)
  case Nil
  then show ?case by simp
next
  case (Cons c cs)
  show ?case
  proof (cases "run_llama rc k (prompt c)")
    case (Inl e')
    then show ?thesis by simp
  next
    case (Inr out)
    with Cons.prems obtain j where j: "i = Suc j"
      by (cases i) auto
    with Cons.prems have "j < length cs" "run_llama rc (Suc k + j) (prompt (cs ! j)) = Inl e"
      by simp_all
    from Cons.IH [OF this] obtain e' es
      where "summarize_chunks rc (Suc k) cs (acc @ [clean_up out]) = (Inl e', es)"
      by blast
    with Inr show ?thesis by simp
  qed
qed

lemma create_summary_fails:
  "i < length (chunks transcript) \<Longrightarrow> run_llama rc i (prompt (chunks transcript ! i)) = Inl e \<Longrightarrow>
     fst (create_summary rc transcript) = None"
  using summarize_chunks_fails [of i "chunks transcript" rc 0 e "[]"]
  by (auto simp: create_summary_def)

text \<open>
  Claim C7. Each operation of the pipeline has its whole body inside \<open>try\<close>, and its
  handler returns the failure value; so whichever step raises, the caller gets the
  failure value and no exception: \<open>get_new_mentions\<close> returns the empty list and keeps
  the cursor; \<open>download_video_audio\<close> returns \<open>None\<close> when the URL is not supported
  (the video library raises), when there is no audio stream, and when the temporary
  directory or the download fails; \<open>transcribe_video\<close> returns \<open>None\<close> when the file
  cannot be opened, the remote call fails or its output has no text; \<open>create_summary\<close>
  returns \<open>None\<close> when the call for some chunk fails; \<open>save_transcript\<close> returns
  \<open>None\<close> when \<open>format_transcript\<close> raises.
\<close>

theorem failures_become_failure_results:
  "(get_me c = Inl e \<longrightarrow> fst (get_new_mentions c b) = ([], b))
   \<and> (get_me c = Inr me \<and> get_users_mentions c (user_id me) (last_mention_id b) = Inl e
        \<longrightarrow> fst (get_new_mentions c b) = ([], b))
   \<and> (YouTube lib video_url = Inl e
        \<longrightarrow> download_video_audio lib video_url
              = (None, [Call (YouTube_audio video_url), Print (Error_downloading_video e)]))
   \<and> (YouTube lib video_url = Inr None \<longrightarrow> fst (download_video_audio lib video_url) = None)
   \<and> (mkdtemp lib = Inl e \<longrightarrow> fst (download_video_audio lib video_url) = None)
   \<and> (YouTube lib video_url = Inr (Some audio) \<and> mkdtemp lib = Inr temp_dir
        \<and> download audio (path_join temp_dir (u ''temp_audio.mp3'')) = Inl e
        \<longrightarrow> fst (download_video_audio lib video_url) = None)
   \<and> (open_rb rc audio_path = Inl e \<longrightarrow> fst (transcribe_video rc audio_path) = None)
   \<and> (run_whisper rc audio_path = Inl e \<longrightarrow> fst (transcribe_video rc audio_path) = None)
   \<and> (run_whisper rc audio_path = Inr output \<and> map_of output (u ''text'') = None
        \<longrightarrow> fst (transcribe_video rc audio_path) = None)
   \<and> (i < length (chunks transcript) \<and> run_llama rc i (prompt (chunks transcript ! i)) = Inl e
        \<longrightarrow> fst (create_summary rc transcript) = None)
   \<and> (fst (format_transcript env transcript_dir transcript summary tweet_url fs) = Inl e
        \<longrightarrow> fst (save_transcript env transcript_dir transcript summary tweet_url fs) = None)"
proof -
  have "fst (format_transcript env transcript_dir transcript summary tweet_url fs) = Inl e
        \<longrightarrow> fst (save_transcript env transcript_dir transcript summary tweet_url fs) = None"
    by (auto simp: save_transcript_def split: prod.splits sum.splits)
  moreover have "i < length (chunks transcript) \<and> run_llama rc i (prompt (chunks transcript ! i)) = Inl e
        \<longrightarrow> fst (create_summary rc transcript) = None"
    using create_summary_fails by blast
  moreover have "(open_rb rc audio_path = Inl e \<longrightarrow> fst (transcribe_video rc audio_path) = None)
   \<and> (run_whisper rc audio_path = Inl e \<longrightarrow> fst (transcribe_video rc audio_path) = None)
   \<and> (run_whisper rc audio_path = Inr output \<and> map_of output (u ''text'') = None
        \<longrightarrow> fst (transcribe_video rc audio_path) = None)"
    by (auto simp: transcribe_video_def split: sum.splits option.splits)
  moreover have "(YouTube lib video_url = Inl e
        \<longrightarrow> download_video_audio lib video_url
              = (None, [Call (YouTube_audio video_url), Print (Error_downloading_video e)]))
   \<and> (YouTube lib video_url = Inr None \<longrightarrow> fst (download_video_audio lib video_url) = None)
   \<and> (mkdtemp lib = Inl e \<longrightarrow> fst (download_video_audio lib video_url) = None)
   \<and> (YouTube lib video_url = Inr (Some audio) \<and> mkdtemp lib = Inr temp_dir
        \<and> download audio (path_join temp_dir (u ''temp_audio.mp3'')) = Inl e
        \<longrightarrow> fst (download_video_audio lib video_url) = None)"
    by (auto simp: download_video_audio_def Let_def split: sum.splits option.splits)
  moreover have "(get_me c = Inl e \<longrightarrow> fst (get_new_mentions c b) = ([], b))
   \<and> (get_me c = Inr me \<and> get_users_mentions c (user_id me) (last_mention_id b) = Inl e
        \<longrightarrow> fst (get_new_mentions c b) = ([], b))"
    by (auto simp: get_new_mentions_def)
  ultimately show ?thesis by blast
qed


theorem failures_become_failure_results_witness:
  "download_video_audio
      \<lparr>YouTube = (\<lambda>url. Inl (Raised (u ''regex_search: could not find match''))),
       mkdtemp = Inr (u ''/tmp/tmp1'')\<rparr>
      (u ''https://example.com/page'')
     = (None, [Call (YouTube_audio (u ''https://example.com/page'')),
               Print (Error_downloading_video (Raised (u ''regex_search: could not find match'')))])
   \<and> fst (download_video_audio
        \<lparr>YouTube = (\<lambda>url. Inr None), mkdtemp = Inr (u ''/tmp/tmp1'')\<rparr>
        (u ''https://youtu.be/silent'')) = None
   \<and> fst (download_video_audio
        \<lparr>YouTube = (\<lambda>url. Inr (Some \<lparr>download = (\<lambda>p. Inr ())\<rparr>)),
         mkdtemp = Inl (Raised (u ''No space left on device''))\<rparr>
        (u ''https://youtu.be/abc'')) = None
   \<and> fst (download_video_audio
        \<lparr>YouTube = (\<lambda>url. Inr (Some \<lparr>download = (\<lambda>p. Inl (Raised (u ''Connection reset'')))\<rparr>)),
         mkdtemp = Inr (u ''/tmp/tmp1'')\<rparr>
        (u ''https://youtu.be/abc'')) = None
   \<and> fst (get_new_mentions (failing_service (Raised (u ''401''))) \<lparr>last_mention_id = Some 7\<rparr>)
       = ([], \<lparr>last_mention_id = Some 7\<rparr>)
   \<and> fst (get_new_mentions (rate_limited_service (Raised (u ''429''))) \<lparr>last_mention_id = Some 7\<rparr>)
       = ([], \<lparr>last_mention_id = Some 7\<rparr>)
   \<and> fst (transcribe_video
        \<lparr>open_rb = (\<lambda>p. Inl (Raised (u ''No such file''))), run_whisper = (\<lambda>p. Inl (Raised (u ''timeout''))),
         run_llama = (\<lambda>k p. if k = 1 then Inl (Raised (u ''timeout'')) else Inr (u ''x''))\<rparr>
        (u ''/tmp/tmp1/temp_audio.mp3'')) = None
   \<and> fst (transcribe_video
        \<lparr>open_rb = (\<lambda>p. Inr ()), run_whisper = (\<lambda>p. Inr [(u ''chunks'', [])]),
         run_llama = (\<lambda>k p. Inr (u ''x''))\<rparr>
        (u ''/tmp/tmp1/temp_audio.mp3'')) = None
   \<and> fst (create_summary
        \<lparr>open_rb = (\<lambda>p. Inl (Raised (u ''No such file''))), run_whisper = (\<lambda>p. Inl (Raised (u ''timeout''))),
         run_llama = (\<lambda>k p. if k = 1 then Inl (Raised (u ''timeout'')) else Inr (u ''x''))\<rparr>
        (replicate 2000 97)) = None
   \<and> fst (save_transcript
        \<lparr>markdown = (\<lambda>s. s), md5_hexdigest = (\<lambda>s. u ''5eb63bbbe01eeed093cb22bb8f5acdc3''),
         now_strftime = u ''November 04, 2026'', open_w = (\<lambda>p. Inr ()),
         environ = (\<lambda>k. None), format_other = (\<lambda>n c s. Inl (ValueError []))\<rparr>
        (u ''transcripts'') (u ''hello world'') ([bullet] @ u '' a point'') (u ''https://x.example/status/1'')
        (\<lambda>p. None)) = None"
proof -
  let ?unsupported = "\<lparr>YouTube = (\<lambda>url. Inl (Raised (u ''regex_search: could not find match''))),
       mkdtemp = Inr (u ''/tmp/tmp1'')\<rparr>"
  let ?silent = "\<lparr>YouTube = (\<lambda>url. Inr None), mkdtemp = Inr (u ''/tmp/tmp1'')\<rparr>"
  let ?full = "\<lparr>YouTube = (\<lambda>url. Inr (Some \<lparr>download = (\<lambda>p. Inr ())\<rparr>)),
         mkdtemp = Inl (Raised (u ''No space left on device''))\<rparr>"
  let ?reset = "\<lparr>YouTube = (\<lambda>url. Inr (Some \<lparr>download = (\<lambda>p. Inl (Raised (u ''Connection reset'')))\<rparr>)),
         mkdtemp = Inr (u ''/tmp/tmp1'')\<rparr>"
  let ?rc = "\<lparr>open_rb = (\<lambda>p. Inl (Raised (u ''No such file''))), run_whisper = (\<lambda>p. Inl (Raised (u ''timeout''))),
         run_llama = (\<lambda>k p. if k = 1 then Inl (Raised (u ''timeout'')) else Inr (u ''x''))\<rparr>"
  let ?textless = "\<lparr>open_rb = (\<lambda>p. Inr ()), run_whisper = (\<lambda>p. Inr [(u ''chunks'', [])]),
         run_llama = (\<lambda>k p. Inr (u ''x''))\<rparr>"
  let ?env = "\<lparr>markdown = (\<lambda>s. s), md5_hexdigest = (\<lambda>s. u ''5eb63bbbe01eeed093cb22bb8f5acdc3''),
         now_strftime = u ''November 04, 2026'', open_w = (\<lambda>p. Inr ()),
         environ = (\<lambda>k. None), format_other = (\<lambda>n c s. Inl (ValueError []))\<rparr>"
  let ?b = "\<lparr>last_mention_id = Some 7\<rparr>"
  have fetch: "download_video_audio ?unsupported (u ''https://example.com/page'')
     = (None, [Call (YouTube_audio (u ''https://example.com/page'')),
               Print (Error_downloading_video (Raised (u ''regex_search: could not find match'')))])"
    using failures_become_failure_results
      [where lib = ?unsupported and video_url = "u ''https://example.com/page''"
         and e = "Raised (u ''regex_search: could not find match'')"]
    by simp
  have silent: "fst (download_video_audio ?silent (u ''https://youtu.be/silent'')) = None"
    using failures_become_failure_results
      [where lib = ?silent and video_url = "u ''https://youtu.be/silent''"]
    by simp
  have full: "fst (download_video_audio ?full (u ''https://youtu.be/abc'')) = None"
    using failures_become_failure_results
      [where lib = ?full and video_url = "u ''https://youtu.be/abc''"
         and e = "Raised (u ''No space left on device'')"]
    by simp
  have reset: "fst (download_video_audio ?reset (u ''https://youtu.be/abc'')) = None"
    using failures_become_failure_results
      [where lib = ?reset and video_url = "u ''https://youtu.be/abc''"
         and audio = "\<lparr>download = (\<lambda>p. Inl (Raised (u ''Connection reset'')))\<rparr>"
         and temp_dir = "u ''/tmp/tmp1''" and e = "Raised (u ''Connection reset'')"]
    by simp
  have poll: "fst (get_new_mentions (failing_service (Raised (u ''401''))) ?b) = ([], ?b)"
    using failures_become_failure_results
      [where c = "failing_service (Raised (u ''401''))" and e = "Raised (u ''401'')" and b = ?b]
    by (simp add: failing_service_def)
  have limited: "fst (get_new_mentions (rate_limited_service (Raised (u ''429''))) ?b) = ([], ?b)"
    using failures_become_failure_results
      [where c = "rate_limited_service (Raised (u ''429''))" and e = "Raised (u ''429'')" and b = ?b
         and me = "\<lparr>user_id = 1, username = u ''tldr''\<rparr>"]
    by (simp add: rate_limited_service_def)
  have transcribe: "fst (transcribe_video ?rc (u ''/tmp/tmp1/temp_audio.mp3'')) = None"
    using failures_become_failure_results
      [where rc = ?rc and audio_path = "u ''/tmp/tmp1/temp_audio.mp3''"
         and e = "Raised (u ''No such file'')"]
      failures_become_failure_results
      [where rc = ?rc and audio_path = "u ''/tmp/tmp1/temp_audio.mp3''"
         and e = "Raised (u ''timeout'')"]
    by simp
  have textless: "fst (transcribe_video ?textless (u ''/tmp/tmp1/temp_audio.mp3'')) = None"
    using failures_become_failure_results
      [where rc = ?textless and audio_path = "u ''/tmp/tmp1/temp_audio.mp3''"
         and ?output = "[(u ''chunks'', [])]"]
    by (simp add: u_def)
  have summarize: "fst (create_summary ?rc (replicate 2000 97)) = None"
    using failures_become_failure_results
      [where rc = ?rc and transcript = "replicate 2000 97" and i = 1
         and e = "Raised (u ''timeout'')"]
    by (simp add: length_chunks)
  have "fst (format_transcript ?env (u ''transcripts'') (u ''hello world'') ([bullet] @ u '' a point'')
          (u ''https://x.example/status/1'') (\<lambda>p. None))
        = Inl (KeyError (newline # u ''                font-family''))"
    by (simp add: format_transcript_raises encodable_def u_def)
  with failures_become_failure_results
      [where env = ?env and transcript_dir = "u ''transcripts''" and transcript = "u ''hello world''"
         and summary = "[bullet] @ u '' a point''" and tweet_url = "u ''https://x.example/status/1''"
         and fs = "\<lambda>p. None" and e = "KeyError (newline # u ''                font-family'')"]
  have save: "fst (save_transcript ?env (u ''transcripts'') (u ''hello world'') ([bullet] @ u '' a point'')
          (u ''https://x.example/status/1'') (\<lambda>p. None)) = None"
    by blast
  from fetch silent full reset poll limited transcribe textless summarize save show ?thesis
    by blast
qed

end
